theory Spec2Isabelle
  imports Complex_Main "HOL-Library.Sublist" "HOL-Library.Code_Target_Numeral"
begin

section \<open>JavaScript numbers\<close>

text \<open>
  The renderer computes with JavaScript numbers: IEEE-754 doubles. A number is modelled as
  one of the three special values of the language, \<open>NaN\<close> (what \<open>parseFloat\<close> and
  \<open>parseInt\<close> return for text that is no number), \<open>Infinity\<close> and \<open>-Infinity\<close>, or as
  the real value of a finite double. The special values behave as the language defines
  them, and every arithmetic operation rounds its exact result to the nearest double or
  overflows to an infinity. The sign of a zero is not part of the model: no operation of
  the renderer divides by a negative zero.
\<close>

datatype jsnum = NaN | PosInfinity | NegInfinity | Fin real

text \<open>The global \<open>isNaN\<close>, on a number.\<close>

definition isNaN :: "jsnum \<Rightarrow> bool" where
  "isNaN x = (x = NaN)"

text \<open>\<open>a < b\<close> and \<open>a <= b\<close>; a comparison with \<open>NaN\<close> is false.\<close>

fun js_less :: "jsnum \<Rightarrow> jsnum \<Rightarrow> bool" where
  "js_less (Fin a) (Fin b) = (a < b)"
| "js_less NegInfinity (Fin b) = True"
| "js_less NegInfinity PosInfinity = True"
| "js_less (Fin a) PosInfinity = True"
| "js_less _ _ = False"

fun js_less_eq :: "jsnum \<Rightarrow> jsnum \<Rightarrow> bool" where
  "js_less_eq (Fin a) (Fin b) = (a \<le> b)"
| "js_less_eq NaN _ = False"
| "js_less_eq _ NaN = False"
| "js_less_eq NegInfinity _ = True"
| "js_less_eq _ PosInfinity = True"
| "js_less_eq _ _ = False"

text \<open>\<open>a > b\<close> is \<open>b < a\<close>.\<close>

definition js_greater :: "jsnum \<Rightarrow> jsnum \<Rightarrow> bool" where
  "js_greater a b = js_less b a"

text \<open>\<open>Number.isInteger\<close>: finite and without a fractional part.\<close>

fun Number_isInteger :: "jsnum \<Rightarrow> bool" where
  "Number_isInteger (Fin a) = (of_int \<lfloor>a\<rfloor> = a)"
| "Number_isInteger _ = False"

section \<open>Rounding to a double\<close>

text \<open>
  A finite number is an IEEE-754 double: a multiple \<open>m \<times> 2^j\<close> of a power of two with
  \<open>|m| < 2^53\<close> and \<open>j \<ge> -1074\<close>, below \<open>2^1024\<close> in size. Every arithmetic operation
  returns the double nearest to the exact result, a tie going to the even significand,
  and \<open>Infinity\<close> when that lies beyond the largest double.

  \<open>exp_up k x\<close> halves \<open>x\<close> while it is at least 2, at most \<open>k\<close> times, and
  \<open>exp_down k x\<close> doubles it while it is below 1: together they give the binary
  exponent of \<open>x\<close>, kept between \<open>-1022\<close> (below it the doubles are subnormal and
  evenly spaced) and \<open>1024\<close>.
\<close>

fun exp_up :: "nat \<Rightarrow> real \<Rightarrow> nat" where
  "exp_up 0 x = 0"
| "exp_up (Suc k) x = (if 2 \<le> x then Suc (exp_up k (x / 2)) else 0)"

fun exp_down :: "nat \<Rightarrow> real \<Rightarrow> nat" where
  "exp_down 0 x = 0"
| "exp_down (Suc k) x = (if x < 1 then Suc (exp_down k (x * 2)) else 0)"

definition double_exponent :: "real \<Rightarrow> int" where
  "double_exponent x =
     (if 1 \<le> \<bar>x\<bar> then int (exp_up 1024 \<bar>x\<bar>) else - int (exp_down 1022 \<bar>x\<bar>))"

text \<open>The spacing of the doubles around \<open>x\<close>: the unit in the last of 53 binary places.\<close>

definition ulp :: "real \<Rightarrow> real" where
  "ulp x = power_int 2 (double_exponent x - 52)"

definition round_half_even :: "real \<Rightarrow> int" where
  "round_half_even x =
     (let n = \<lfloor>x\<rfloor>; d = x - of_int n
      in if d < 1 / 2 then n else if 1 / 2 < d then n + 1 else if even n then n else n + 1)"

definition round_to_double :: "real \<Rightarrow> real" where
  "round_to_double x =
     (let y = of_int (round_half_even (\<bar>x\<bar> / ulp x)) * ulp x
      in if 0 \<le> x then y else - y)"

definition overflow_threshold :: real where
  "overflow_threshold = 2 ^ 1024"

definition round_double :: "real \<Rightarrow> jsnum" where
  "round_double x =
     (let y = round_to_double x
      in if overflow_threshold \<le> \<bar>y\<bar> then (if 0 < y then PosInfinity else NegInfinity)
         else Fin y)"

section \<open>Arithmetic\<close>

text \<open>
  The four arithmetic operators. On finite numbers the exact result is rounded to a
  double. \<open>NaN\<close> is contagious; \<open>Infinity - Infinity\<close>, \<open>Infinity * 0\<close>,
  \<open>Infinity / Infinity\<close> and \<open>0 / 0\<close> are \<open>NaN\<close>; a nonzero finite number divided by
  zero is an infinity.
\<close>

fun js_add :: "jsnum \<Rightarrow> jsnum \<Rightarrow> jsnum" where
  "js_add (Fin a) (Fin b) = round_double (a + b)"
| "js_add NaN _ = NaN"
| "js_add _ NaN = NaN"
| "js_add PosInfinity NegInfinity = NaN"
| "js_add NegInfinity PosInfinity = NaN"
| "js_add PosInfinity _ = PosInfinity"
| "js_add NegInfinity _ = NegInfinity"
| "js_add (Fin a) b = b"

fun js_neg :: "jsnum \<Rightarrow> jsnum" where
  "js_neg (Fin a) = Fin (- a)"
| "js_neg PosInfinity = NegInfinity"
| "js_neg NegInfinity = PosInfinity"
| "js_neg NaN = NaN"

definition js_sub :: "jsnum \<Rightarrow> jsnum \<Rightarrow> jsnum" where
  "js_sub a b = js_add a (js_neg b)"

text \<open>The sign of a number other than \<open>NaN\<close>: \<open>-1\<close>, \<open>0\<close> or \<open>1\<close>.\<close>

fun js_sign :: "jsnum \<Rightarrow> real" where
  "js_sign (Fin a) = sgn a"
| "js_sign PosInfinity = 1"
| "js_sign NegInfinity = - 1"
| "js_sign NaN = 0"

definition signed_infinity :: "real \<Rightarrow> jsnum" where
  "signed_infinity s = (if s = 0 then NaN else if 0 < s then PosInfinity else NegInfinity)"

fun js_mul :: "jsnum \<Rightarrow> jsnum \<Rightarrow> jsnum" where
  "js_mul (Fin a) (Fin b) = round_double (a * b)"
| "js_mul NaN _ = NaN"
| "js_mul _ NaN = NaN"
| "js_mul a b = signed_infinity (js_sign a * js_sign b)"

fun js_div :: "jsnum \<Rightarrow> jsnum \<Rightarrow> jsnum" where
  "js_div (Fin a) (Fin b) =
     (if b = 0 then signed_infinity (sgn a) else round_double (a / b))"
| "js_div NaN _ = NaN"
| "js_div _ NaN = NaN"
| "js_div (Fin a) _ = Fin 0"
| "js_div a (Fin b) = signed_infinity (js_sign a * (if b < 0 then - 1 else 1))"
| "js_div _ _ = NaN"

text \<open>
  \<open>Math.pow\<close>, by the cases of the language definition. A finite nonzero base to a
  finite nonzero exponent is the real power, rounded to a double (the language leaves the
  last digit to the implementation; the model takes the nearest double); a negative base
  has a power only for an integral exponent.
\<close>

definition odd_integer :: "real \<Rightarrow> bool" where
  "odd_integer e = (of_int \<lfloor>e\<rfloor> = e \<and> odd \<lfloor>e\<rfloor>)"

fun Math_pow :: "jsnum \<Rightarrow> jsnum \<Rightarrow> jsnum" where
  "Math_pow _ NaN = NaN"
| "Math_pow b (Fin e) =
     (if e = 0 then Fin 1
      else case b of
        NaN \<Rightarrow> NaN
      | PosInfinity \<Rightarrow> (if 0 < e then PosInfinity else Fin 0)
      | NegInfinity \<Rightarrow>
          (if 0 < e then (if odd_integer e then NegInfinity else PosInfinity) else Fin 0)
      | Fin x \<Rightarrow>
          (if x = 0 then (if 0 < e then Fin 0 else PosInfinity)
           else if of_int \<lfloor>e\<rfloor> = e then round_double (power_int x \<lfloor>e\<rfloor>)
           else if x < 0 then NaN
           else round_double (x powr e)))"
| "Math_pow b PosInfinity =
     (case b of
        NaN \<Rightarrow> NaN
      | PosInfinity \<Rightarrow> PosInfinity
      | NegInfinity \<Rightarrow> PosInfinity
      | Fin x \<Rightarrow>
          (if 1 < \<bar>x\<bar> then PosInfinity else if \<bar>x\<bar> = 1 then NaN else Fin 0))"
| "Math_pow b NegInfinity =
     (case b of
        NaN \<Rightarrow> NaN
      | PosInfinity \<Rightarrow> Fin 0
      | NegInfinity \<Rightarrow> Fin 0
      | Fin x \<Rightarrow>
          (if x = 0 then PosInfinity
           else if 1 < \<bar>x\<bar> then Fin 0 else if \<bar>x\<bar> = 1 then NaN else PosInfinity))"

section \<open>The amortization engine\<close>

record mortgage_result =
  monthlyPayment :: jsnum
  totalInterest :: jsnum
  totalAmount :: jsnum

text \<open>
  \<open>calculateMortgage(principal, annualRate, years)\<close> of \<open>renderer.js\<close>. The first
  parameter is written \<open>principal'\<close>, \<open>principal\<close> being a constant of the library.
\<close>

definition calculateMortgage :: "jsnum \<Rightarrow> jsnum \<Rightarrow> jsnum \<Rightarrow> mortgage_result" where
  "calculateMortgage principal' annualRate years =
     (let monthlyRate = js_div (js_div annualRate (Fin 100)) (Fin 12);
          numberOfPayments = js_mul years (Fin 12);
          monthlyPayment =
            (if monthlyRate = Fin 0 then js_div principal' numberOfPayments
             else
               (let compoundFactor = Math_pow (js_add (Fin 1) monthlyRate) numberOfPayments
                in js_div (js_mul principal' (js_mul monthlyRate compoundFactor))
                     (js_sub compoundFactor (Fin 1))));
          totalAmount = js_mul monthlyPayment numberOfPayments;
          totalInterest = js_sub totalAmount principal'
      in \<lparr>monthlyPayment = monthlyPayment,
          totalInterest = totalInterest,
          totalAmount = totalAmount\<rparr>)"

section \<open>Input validation\<close>

text \<open>
  \<open>validateInputs\<close> returns the message of the first check that fails, or \<open>null\<close>
  (\<open>None\<close>) when none does.
\<close>

definition validateInputs :: "jsnum \<Rightarrow> jsnum \<Rightarrow> jsnum \<Rightarrow> jsnum \<Rightarrow> string option" where
  "validateInputs interestRate loanAmount loanDuration lotFees =
     (if isNaN interestRate \<or> js_less interestRate (Fin 0) then
        Some ''Please enter a valid interest rate (0 or greater)''
      else if isNaN loanAmount \<or> js_less_eq loanAmount (Fin 0) then
        Some ''Please enter a valid loan amount (greater than 0)''
      else if isNaN loanDuration \<or> js_less_eq loanDuration (Fin 0)
              \<or> \<not> Number_isInteger loanDuration then
        Some ''Please enter a valid loan duration (whole number of years, greater than 0)''
      else if js_greater interestRate (Fin 100) then
        Some ''Interest rate seems too high. Please enter a rate between 0 and 100%''
      else if isNaN lotFees \<or> js_less lotFees (Fin 0) then
        Some ''Please enter a valid lot fees amount (0 or greater)''
      else None)"

section \<open>The page and the comparison store\<close>

text \<open>
  The inputs of a successful calculation are kept as JSON text in
  \<open>resultsElement.dataset.inputs\<close>. \<open>JSON.stringify\<close> writes a number that is not finite
  as \<open>null\<close>, so a value read back by \<open>JSON.parse\<close> is \<open>null\<close> or a finite number.
\<close>

datatype jsval = Null | Number jsnum

fun JSON_number :: "jsnum \<Rightarrow> jsval" where
  "JSON_number (Fin a) = Number (Fin a)"
| "JSON_number _ = Null"

text \<open>An arithmetic operator converts \<open>null\<close> to \<open>0\<close>.\<close>

fun ToNumber :: "jsval \<Rightarrow> jsnum" where
  "ToNumber Null = Fin 0"
| "ToNumber (Number x) = x"

text \<open>\<open>v || 0\<close>: \<open>null\<close>, \<open>NaN\<close> and \<open>0\<close> are falsy.\<close>

fun or_zero :: "jsval \<Rightarrow> jsnum" where
  "or_zero Null = Fin 0"
| "or_zero (Number x) = (if x = NaN \<or> x = Fin 0 then Fin 0 else x)"

text \<open>The object \<open>{ interestRate, loanAmount, loanDuration, lotFees }\<close> and its JSON.\<close>

record calc_inputs =
  inputs_interestRate :: jsnum
  inputs_loanAmount :: jsnum
  inputs_loanDuration :: jsnum
  inputs_lotFees :: jsnum

record stored_inputs =
  stored_interestRate :: jsval
  stored_loanAmount :: jsval
  stored_loanDuration :: jsval
  stored_lotFees :: jsval

definition JSON_stringify :: "calc_inputs \<Rightarrow> stored_inputs" where
  "JSON_stringify inputs =
     \<lparr>stored_interestRate = JSON_number (inputs_interestRate inputs),
      stored_loanAmount = JSON_number (inputs_loanAmount inputs),
      stored_loanDuration = JSON_number (inputs_loanDuration inputs),
      stored_lotFees = JSON_number (inputs_lotFees inputs)\<rparr>"

text \<open>An entry of \<open>comparisonMortgages\<close>; its \<open>id\<close> is a reading of \<open>Date.now()\<close>.\<close>

record comparison_entry =
  entry_id :: int
  entry_interestRate :: jsval
  entry_loanAmount :: jsval
  entry_loanDuration :: jsval
  entry_lotFees :: jsnum
  entry_monthlyPayment :: jsnum
  entry_totalInterest :: jsnum
  entry_totalAmount :: jsnum

text \<open>
  The state the handlers read and write: the global array \<open>comparisonMortgages\<close>, the
  error element (its text and whether it is visible), the results element (the three
  amounts it shows, whether it is visible, and its \<open>dataset.inputs\<close>, \<open>None\<close> while the
  attribute is unset). The amounts are kept as numbers, before \<open>formatCurrency\<close>. The
  table that \<open>updateComparisonDisplay\<close> renders from \<open>comparisonMortgages\<close>, the lot fees
  note and the parsing of the four text fields are not modelled: \<open>handleCalculate\<close> starts
  from the four parsed numbers.
\<close>

record page =
  comparisonMortgages :: "comparison_entry list"
  errorMessage :: string
  errorVisible :: bool
  displayedResults :: "mortgage_result option"
  resultsVisible :: bool
  dataset_inputs :: "stored_inputs option"

definition initial_page :: page where
  "initial_page =
     \<lparr>comparisonMortgages = [], errorMessage = [], errorVisible = False,
      displayedResults = None, resultsVisible = False, dataset_inputs = None\<rparr>"

definition showError :: "string \<Rightarrow> page \<Rightarrow> page" where
  "showError message s = s\<lparr>errorMessage := message, errorVisible := True, resultsVisible := False\<rparr>"

definition hideError :: "page \<Rightarrow> page" where
  "hideError s = s\<lparr>errorVisible := False\<rparr>"

definition displayResults :: "mortgage_result \<Rightarrow> calc_inputs option \<Rightarrow> page \<Rightarrow> page" where
  "displayResults results inputs s =
     (let s1 = s\<lparr>displayedResults := Some results, resultsVisible := True\<rparr>
      in case inputs of
           None \<Rightarrow> s1
         | Some i \<Rightarrow> s1\<lparr>dataset_inputs := Some (JSON_stringify i)\<rparr>)"

text \<open>\<open>handleCalculate\<close>, from the four parsed field values.\<close>

definition handleCalculate :: "jsnum \<Rightarrow> jsnum \<Rightarrow> jsnum \<Rightarrow> jsnum \<Rightarrow> page \<Rightarrow> page" where
  "handleCalculate interestRate loanAmount loanDuration lotFees s =
     (let s0 = hideError s
      in case validateInputs interestRate loanAmount loanDuration lotFees of
           Some error \<Rightarrow> showError error s0
         | None \<Rightarrow>
             (let mortgageResults = calculateMortgage loanAmount interestRate loanDuration;
                  monthlyPaymentWithLotFees = js_add (monthlyPayment mortgageResults) lotFees;
                  numberOfPayments = js_mul loanDuration (Fin 12);
                  totalInterest = totalInterest mortgageResults;
                  totalAmount = js_mul monthlyPaymentWithLotFees numberOfPayments;
                  results = \<lparr>monthlyPayment = monthlyPaymentWithLotFees,
                             totalInterest = totalInterest,
                             totalAmount = totalAmount\<rparr>;
                  inputs = \<lparr>inputs_interestRate = interestRate,
                            inputs_loanAmount = loanAmount,
                            inputs_loanDuration = loanDuration,
                            inputs_lotFees = lotFees\<rparr>
              in displayResults results (Some inputs) s0))"

text \<open>
  \<open>addToComparison\<close>; \<open>now\<close> is what \<open>Date.now()\<close> returns during the call, in
  milliseconds.
\<close>

definition addToComparison :: "int \<Rightarrow> page \<Rightarrow> page" where
  "addToComparison now s =
     (case dataset_inputs s of
        None \<Rightarrow> showError ''Please calculate a mortgage first before adding to comparison'' s
      | Some inputs \<Rightarrow>
          (let interestRate = stored_interestRate inputs;
               loanAmount = stored_loanAmount inputs;
               loanDuration = stored_loanDuration inputs;
               lotFees = or_zero (stored_lotFees inputs);
               mortgageResults =
                 calculateMortgage (ToNumber loanAmount) (ToNumber interestRate)
                   (ToNumber loanDuration);
               monthlyPaymentWithLotFees = js_add (monthlyPayment mortgageResults) lotFees;
               numberOfPayments = js_mul (ToNumber loanDuration) (Fin 12);
               totalInterest = totalInterest mortgageResults;
               totalAmount = js_mul monthlyPaymentWithLotFees numberOfPayments;
               entry = \<lparr>entry_id = now,
                        entry_interestRate = interestRate,
                        entry_loanAmount = loanAmount,
                        entry_loanDuration = loanDuration,
                        entry_lotFees = lotFees,
                        entry_monthlyPayment = monthlyPaymentWithLotFees,
                        entry_totalInterest = totalInterest,
                        entry_totalAmount = totalAmount\<rparr>
           in hideError (s\<lparr>comparisonMortgages := comparisonMortgages s @ [entry]\<rparr>)))"

text \<open>\<open>removeFromComparison(id)\<close>.\<close>

definition removeFromComparison :: "int \<Rightarrow> page \<Rightarrow> page" where
  "removeFromComparison id' s =
     s\<lparr>comparisonMortgages := filter (\<lambda>entry. entry_id entry \<noteq> id') (comparisonMortgages s)\<rparr>"

text \<open>
  The listeners registered on \<open>DOMContentLoaded\<close>: a click on the calculate button (or
  Enter in a field) runs \<open>handleCalculate\<close> on the parsed field values, a click on the add
  button runs \<open>addToComparison\<close>, at some reading of the clock, and a click on a row's
  remove button runs \<open>removeFromComparison\<close> with the row's id.
\<close>

datatype event =
  ClickCalculate jsnum jsnum jsnum jsnum
| ClickAddToComparison int
| ClickRemove int

fun dispatch :: "event \<Rightarrow> page \<Rightarrow> page" where
  "dispatch (ClickCalculate interestRate loanAmount loanDuration lotFees) s =
     handleCalculate interestRate loanAmount loanDuration lotFees s"
| "dispatch (ClickAddToComparison now) s = addToComparison now s"
| "dispatch (ClickRemove id') s = removeFromComparison id' s"

definition run :: "event list \<Rightarrow> page \<Rightarrow> page" where
  "run events s = fold dispatch events s"

text \<open>A calculation is successful when its inputs pass validation.\<close>

fun successful_calculation :: "event \<Rightarrow> bool" where
  "successful_calculation (ClickCalculate i p t f) = (validateInputs i p t f = None)"
| "successful_calculation _ = False"

section \<open>The specification's reference definitions\<close>

text \<open>
  \<open>computePayment\<close> as the specification words it, the formula over the reals: the
  monthly rate \<open>r\<close> is the annual percentage divided by 100 and by 12, the payment count
  \<open>n\<close> is twelve times the term, the payment is \<open>principal / n\<close> when \<open>r\<close> is zero
  and \<open>principal \<times> r \<times> (1+r)^n / ((1+r)^n - 1)\<close> otherwise.
\<close>

definition computePayment :: "real \<Rightarrow> real \<Rightarrow> nat \<Rightarrow> mortgage_result" where
  "computePayment p annualRatePercent termYears =
     (let r = annualRatePercent / 100 / 12;
          n = termYears * 12;
          m = (if r = 0 then p / real n
               else p * r * (1 + r) ^ n / ((1 + r) ^ n - 1))
      in \<lparr>monthlyPayment = Fin m,
          totalInterest = Fin (m * real n - p),
          totalAmount = Fin (m * real n)\<rparr>)"

text \<open>
  The five checks of \<open>validate\<close>, in the specification's order. A real number is a
  finite one: neither \<open>NaN\<close> nor an infinity.
\<close>

datatype validation_check =
  RateNonNegative | PrincipalPositive | TermPositiveInteger | RateCeiling | FeesNonNegative

fun is_real_number :: "jsnum \<Rightarrow> bool" where
  "is_real_number (Fin a) = True"
| "is_real_number _ = False"

fun check_passes :: "validation_check \<Rightarrow> jsnum \<Rightarrow> jsnum \<Rightarrow> jsnum \<Rightarrow> jsnum \<Rightarrow> bool" where
  "check_passes RateNonNegative i p t f = (is_real_number i \<and> js_less_eq (Fin 0) i)"
| "check_passes PrincipalPositive i p t f = (is_real_number p \<and> js_less (Fin 0) p)"
| "check_passes TermPositiveInteger i p t f = (Number_isInteger t \<and> js_less (Fin 0) t)"
| "check_passes RateCeiling i p t f = js_less_eq i (Fin 100)"
| "check_passes FeesNonNegative i p t f = (is_real_number f \<and> js_less_eq (Fin 0) f)"

definition check_order :: "validation_check list" where
  "check_order =
     [RateNonNegative, PrincipalPositive, TermPositiveInteger, RateCeiling, FeesNonNegative]"

text \<open>The first check that fails, if any.\<close>

definition validate :: "jsnum \<Rightarrow> jsnum \<Rightarrow> jsnum \<Rightarrow> jsnum \<Rightarrow> validation_check option" where
  "validate i p t f = List.find (\<lambda>c. \<not> check_passes c i p t f) check_order"

text \<open>The message the code gives for each check.\<close>

fun message :: "validation_check \<Rightarrow> string" where
  "message RateNonNegative = ''Please enter a valid interest rate (0 or greater)''"
| "message PrincipalPositive = ''Please enter a valid loan amount (greater than 0)''"
| "message TermPositiveInteger =
     ''Please enter a valid loan duration (whole number of years, greater than 0)''"
| "message RateCeiling =
     ''Interest rate seems too high. Please enter a rate between 0 and 100%''"
| "message FeesNonNegative = ''Please enter a valid lot fees amount (0 or greater)''"

text \<open>
  \<open>applyFees\<close> as the specification words it: the fees are added to the monthly payment,
  the total is the adjusted payment times the payment count \<open>n\<close>, the interest is left as
  it was.
\<close>

definition applyFees :: "mortgage_result \<Rightarrow> jsnum \<Rightarrow> jsnum \<Rightarrow> mortgage_result" where
  "applyFees result monthlyFees n =
     \<lparr>monthlyPayment = js_add (monthlyPayment result) monthlyFees,
      totalInterest = totalInterest result,
      totalAmount = js_mul (js_add (monthlyPayment result) monthlyFees) n\<rparr>"

text \<open>The three amounts of a comparison entry.\<close>

definition entry_result :: "comparison_entry \<Rightarrow> mortgage_result" where
  "entry_result e =
     \<lparr>monthlyPayment = entry_monthlyPayment e,
      totalInterest = entry_totalInterest e,
      totalAmount = entry_totalAmount e\<rparr>"

text \<open>
  A page to evaluate on: a fresh page after one successful calculation, of 1200 at 0 percent
  over one year with monthly fees of 50.
\<close>

definition example_page :: page where
  "example_page = handleCalculate (Fin 0) (Fin 1200) (Fin 1) (Fin 50) initial_page"

section \<open>Properties of the rounding\<close>

lemma exp_up_le: "exp_up k x \<le> k"
  by (induction k arbitrary: x) auto

lemma exp_up_lower: "1 \<le> x \<Longrightarrow> 2 ^ exp_up k x \<le> x"
proof (induction k arbitrary: x)
  case 0
  then show ?case by simp
next
  case (Suc k)
  show ?case
  proof (cases "2 \<le> x")
    case True
    then have "2 ^ exp_up k (x / 2) \<le> x / 2" by (intro Suc.IH) simp
    with True show ?thesis by simp
  next
    case False
    with Suc.prems show ?thesis by simp
  qed
qed

lemma exp_up_upper: "x < 2 ^ Suc (exp_up k x) \<or> exp_up k x = k"
proof (induction k arbitrary: x)
  case 0
  then show ?case by simp
next
  case (Suc k)
  show ?case
  proof (cases "2 \<le> x")
    case True
    from Suc.IH[of "x / 2"] True show ?thesis by auto
  next
    case False
    then show ?thesis by simp
  qed
qed

lemma exp_down_le: "exp_down k x \<le> k"
  by (induction k arbitrary: x) auto

lemma exp_down_upper: "x < 1 \<Longrightarrow> x * 2 ^ exp_down k x < 2"
proof (induction k arbitrary: x)
  case 0
  then show ?case by simp
next
  case (Suc k)
  show ?case
  proof (cases "x * 2 < 1")
    case True
    from Suc.IH[OF True] Suc.prems show ?thesis by (simp add: mult.assoc)
  next
    case False
    have "exp_down k (x * 2) = 0" using False by (cases k) auto
    with Suc.prems show ?thesis by simp
  qed
qed

lemma exp_down_lower: "1 \<le> x * 2 ^ exp_down k x \<or> exp_down k x = k"
proof (induction k arbitrary: x)
  case 0
  then show ?case by simp
next
  case (Suc k)
  show ?case
  proof (cases "x < 1")
    case True
    from Suc.IH[of "x * 2"] True show ?thesis by (auto simp: mult.assoc)
  next
    case False
    then show ?thesis by simp
  qed
qed

lemma double_exponent_range: "- 1022 \<le> double_exponent x" "double_exponent x \<le> 1024"
  using exp_up_le[of 1024 "\<bar>x\<bar>"] exp_down_le[of 1022 "\<bar>x\<bar>"]
  by (auto simp: double_exponent_def)

lemma double_exponent_lower:
  "power_int 2 (double_exponent x) \<le> \<bar>x\<bar> \<or> double_exponent x = - 1022"
proof (cases "1 \<le> \<bar>x\<bar>")
  case True
  then show ?thesis using exp_up_lower[of "\<bar>x\<bar>" 1024] by (simp add: double_exponent_def)
next
  case False
  let ?d = "exp_down 1022 \<bar>x\<bar>"
  from exp_down_lower[of "\<bar>x\<bar>" 1022] show ?thesis
  proof
    assume "1 \<le> \<bar>x\<bar> * 2 ^ ?d"
    then have "1 / 2 ^ ?d \<le> \<bar>x\<bar>" by (simp add: field_simps)
    then show ?thesis using False
      by (simp add: double_exponent_def power_int_minus field_simps)
  next
    assume "?d = 1022"
    then show ?thesis using False by (simp add: double_exponent_def)
  qed
qed

lemma double_exponent_upper:
  "\<bar>x\<bar> < power_int 2 (double_exponent x + 1) \<or> double_exponent x = 1024"
proof (cases "1 \<le> \<bar>x\<bar>")
  case True
  from exp_up_upper[of "\<bar>x\<bar>" 1024] show ?thesis
  proof
    assume "\<bar>x\<bar> < 2 ^ Suc (exp_up 1024 \<bar>x\<bar>)"
    moreover have "power_int (2::real) (int (exp_up 1024 \<bar>x\<bar>) + 1) = 2 ^ Suc (exp_up 1024 \<bar>x\<bar>)"
      by (simp add: power_int_add)
    ultimately show ?thesis using True by (simp add: double_exponent_def)
  next
    assume "exp_up 1024 \<bar>x\<bar> = 1024"
    then show ?thesis using True by (simp add: double_exponent_def)
  qed
next
  case False
  let ?d = "exp_down 1022 \<bar>x\<bar>"
  have d: "1 \<le> ?d" using False by (simp add: numeral_eq_Suc)
  from False have "\<bar>x\<bar> * 2 ^ ?d < 2" by (intro exp_down_upper) simp
  then have "\<bar>x\<bar> < 2 / 2 ^ ?d" by (simp add: field_simps)
  also have "2 / 2 ^ ?d = power_int (2::real) (1 - int ?d)"
    by (simp add: power_int_diff)
  finally show ?thesis using False by (simp add: double_exponent_def)
qed

lemma ulp_pos: "0 < ulp x"
  by (simp add: ulp_def)

lemma round_half_even_of_int: "round_half_even (of_int z) = z"
  by (simp add: round_half_even_def)

lemma round_half_even_error: "\<bar>of_int (round_half_even q) - q\<bar> \<le> 1 / 2"
  unfolding round_half_even_def Let_def by (auto simp: abs_if) linarith+

lemma round_half_even_ge_floor: "\<lfloor>q\<rfloor> \<le> round_half_even q"
  by (simp add: round_half_even_def Let_def)

lemma round_half_even_le: "round_half_even q \<le> \<lfloor>q\<rfloor> + 1"
  by (simp add: round_half_even_def Let_def)


lemma round_to_double_representable:
  assumes x: "x = of_int m * power_int 2 j" and m: "\<bar>m\<bar> < 2 ^ 53" and j: "- 1074 \<le> j"
  shows "round_to_double x = x"
proof -
  let ?E = "double_exponent x"
  have ax: "\<bar>x\<bar> = of_int \<bar>m\<bar> * power_int 2 j"
    by (simp add: x abs_mult)
  have le: "?E - 52 \<le> j"
  proof (cases "?E = - 1022")
    case True
    with j show ?thesis by simp
  next
    case False
    with double_exponent_lower[of x] have "power_int 2 ?E \<le> \<bar>x\<bar>" by simp
    also have "\<bar>x\<bar> < 2 ^ 53 * power_int 2 j"
    proof -
      have "(of_int \<bar>m\<bar> :: real) < of_int (2 ^ 53)" using m by (simp only: of_int_less_iff)
      then have "(of_int \<bar>m\<bar> :: real) < 2 ^ 53" by simp
      then show ?thesis unfolding ax by (intro mult_strict_right_mono) simp_all
    qed
    also have "2 ^ 53 * power_int 2 j = power_int (2::real) (53 + j)"
      by (simp add: power_int_add)
    finally have lt: "power_int (2::real) ?E < power_int 2 (53 + j)" .
    have "?E < 53 + j"
    proof (rule ccontr)
      assume "\<not> ?E < 53 + j"
      then have "power_int (2::real) (53 + j) \<le> power_int 2 ?E"
        by (intro power_int_increasing) simp_all
      with lt show False by simp
    qed
    then show ?thesis by simp
  qed
  define k where "k = nat (j - (?E - 52))"
  have k: "int k = j - (?E - 52)" using le by (simp add: k_def)
  have "\<bar>x\<bar> / ulp x = of_int \<bar>m\<bar> * power_int 2 (int k)"
    unfolding ax ulp_def k by (simp add: power_int_diff)
  also have "\<dots> = of_int (\<bar>m\<bar> * 2 ^ k)" by simp
  finally have q: "\<bar>x\<bar> / ulp x = of_int (\<bar>m\<bar> * 2 ^ k)" .
  have "of_int (round_half_even (\<bar>x\<bar> / ulp x)) * ulp x = \<bar>x\<bar> / ulp x * ulp x"
    unfolding q round_half_even_of_int ..
  also have "\<dots> = \<bar>x\<bar>" using ulp_pos[of x] by simp
  finally show ?thesis by (simp add: round_to_double_def Let_def)
qed

lemma round_to_double_error: "\<bar>round_to_double x - x\<bar> \<le> ulp x / 2"
proof -
  let ?q = "\<bar>x\<bar> / ulp x"
  let ?y = "of_int (round_half_even ?q) * ulp x"
  have "\<bar>?y - \<bar>x\<bar>\<bar> = \<bar>of_int (round_half_even ?q) - ?q\<bar> * ulp x"
  proof -
    have "?y - \<bar>x\<bar> = (of_int (round_half_even ?q) - ?q) * ulp x"
      using ulp_pos[of x] by (simp add: algebra_simps)
    then show ?thesis using ulp_pos[of x] by (simp add: abs_mult)
  qed
  also have "\<dots> \<le> 1 / 2 * ulp x"
    using round_half_even_error[of ?q] ulp_pos[of x] by (intro mult_right_mono) simp_all
  finally have *: "\<bar>?y - \<bar>x\<bar>\<bar> \<le> ulp x / 2" by simp
  show ?thesis
  proof (cases "0 \<le> x")
    case True
    with * show ?thesis by (simp add: round_to_double_def Let_def)
  next
    case False
    then have "round_to_double x - x = - (?y - \<bar>x\<bar>)"
      by (simp add: round_to_double_def Let_def)
    then have "\<bar>round_to_double x - x\<bar> = \<bar>?y - \<bar>x\<bar>\<bar>" by (simp only: abs_minus)
    with * show ?thesis by simp
  qed
qed

lemma ulp_half_bound: "ulp x / 2 \<le> \<bar>x\<bar> / 2 ^ 53 \<or> ulp x / 2 = 1 / 2 ^ 1075"
proof (cases "double_exponent x = - 1022")
  case True
  then have "ulp x = power_int 2 (- 1074)" by (simp add: ulp_def)
  then show ?thesis by (simp add: power_int_minus field_simps)
next
  case False
  with double_exponent_lower[of x] have "power_int 2 (double_exponent x) \<le> \<bar>x\<bar>" by simp
  moreover have "ulp x / 2 = power_int 2 (double_exponent x) / 2 ^ 53"
    by (simp add: ulp_def power_int_diff)
  ultimately show ?thesis by (simp add: divide_right_mono)
qed

lemma round_to_double_relative_error:
  "\<bar>round_to_double x - x\<bar> \<le> \<bar>x\<bar> / 2 ^ 53 + 1 / 2 ^ 1075"
proof -
  have "ulp x / 2 \<le> \<bar>x\<bar> / 2 ^ 53 + 1 / 2 ^ 1075"
    using ulp_half_bound[of x] by (auto intro: add_increasing2)
  with round_to_double_error[of x] show ?thesis by linarith
qed

lemma exp_up_saturated: "2 ^ k \<le> x \<Longrightarrow> exp_up k x = k"
proof (induction k arbitrary: x)
  case 0
  then show ?case by simp
next
  case (Suc k)
  from Suc.prems have h: "2 ^ k \<le> x / 2" by simp
  have "(1::real) \<le> 2 ^ k" by simp
  with h have "2 \<le> x" by linarith
  with Suc.IH[OF h] show ?case by simp
qed

lemma round_to_double_overflow:
  assumes "overflow_threshold \<le> \<bar>x\<bar>"
  shows "overflow_threshold \<le> \<bar>round_to_double x\<bar>"
proof -
  have big: "2 ^ 1024 \<le> \<bar>x\<bar>" using assms by (simp only: overflow_threshold_def)
  have one: "1 \<le> \<bar>x\<bar>"
  proof -
    have "(1::real) \<le> 2 ^ 1024" by (rule one_le_power) simp
    with big show ?thesis by linarith
  qed
  have E: "double_exponent x = 1024"
    using one exp_up_saturated[OF big] by (simp add: double_exponent_def)
  have u: "ulp x = 2 ^ 972" by (simp add: ulp_def E)
  let ?q = "\<bar>x\<bar> / ulp x"
  let ?y = "of_int (round_half_even ?q) * ulp x"
  have split: "overflow_threshold = 2 ^ 52 * ulp x"
    unfolding u overflow_threshold_def by (simp flip: power_add)
  have "2 ^ 52 \<le> ?q" using assms ulp_pos[of x] unfolding split by (simp add: field_simps)
  then have "(2::int) ^ 52 \<le> \<lfloor>?q\<rfloor>" by (simp add: le_floor_iff)
  with round_half_even_ge_floor[of ?q] have "(2::int) ^ 52 \<le> round_half_even ?q" by linarith
  then have "(of_int (2 ^ 52) :: real) \<le> of_int (round_half_even ?q)"
    by (simp only: of_int_le_iff)
  then have z: "(2::real) ^ 52 \<le> of_int (round_half_even ?q)" by simp
  have "overflow_threshold \<le> ?y"
    unfolding split using z ulp_pos[of x] by (intro mult_right_mono) simp_all
  moreover have "\<bar>round_to_double x\<bar> = \<bar>?y\<bar>"
    by (simp add: round_to_double_def Let_def)
  ultimately show ?thesis by linarith
qed


lemma round_half_even_nonneg: "0 \<le> q \<Longrightarrow> 0 \<le> round_half_even q"
  using round_half_even_ge_floor[of q] by (simp add: order_trans[of 0 "\<lfloor>q\<rfloor>"])

lemma round_to_double_idem:
  assumes "double_exponent x < 1024"
  shows "round_to_double (round_to_double x) = round_to_double x"
proof -
  let ?E = "double_exponent x"
  let ?q = "\<bar>x\<bar> / ulp x"
  let ?z = "round_half_even ?q"
  have q0: "0 \<le> ?q" using ulp_pos[of x] by simp
  have z0: "0 \<le> ?z" using q0 by (rule round_half_even_nonneg)
  from assms double_exponent_upper[of x] have "\<bar>x\<bar> < power_int 2 (?E + 1)" by simp
  then have "?q < power_int 2 (?E + 1) / ulp x"
    using ulp_pos[of x] by (simp add: divide_strict_right_mono)
  also have "power_int 2 (?E + 1) / ulp x = power_int (2::real) 53"
    unfolding ulp_def by (simp flip: power_int_diff)
  finally have "?q < 2 ^ 53" by simp
  then have "\<lfloor>?q\<rfloor> < 2 ^ 53" by (simp add: floor_less_iff)
  with round_half_even_le[of ?q] have z53: "?z \<le> 2 ^ 53" by linarith
  define s :: int where "s = (if 0 \<le> x then 1 else - 1)"
  have r: "round_to_double x = of_int (s * ?z) * power_int 2 (?E - 52)"
    by (simp add: round_to_double_def Let_def ulp_def s_def)
  have E: "- 1074 \<le> ?E - 52" using double_exponent_range(1)[of x] by simp
  show ?thesis
  proof (cases "?z = 2 ^ 53")
    case False
    have "\<bar>s\<bar> = 1" by (simp add: s_def)
    then have "\<bar>s * ?z\<bar> = ?z" using z0 by (simp only: abs_mult abs_of_nonneg mult_1)
    with z53 False have "\<bar>s * ?z\<bar> < 2 ^ 53" by linarith
    from round_to_double_representable[OF r this E] show ?thesis .
  next
    case True
    have "round_to_double x = of_int (s * 2 ^ 52) * power_int 2 (?E - 51)"
    proof -
      have "power_int (2::real) (?E - 51) = power_int 2 (?E - 52) * 2"
        using power_int_add[of "2::real" "?E - 52" 1] by simp
      then show ?thesis unfolding r True by simp
    qed
    moreover have "\<bar>s * 2 ^ 52\<bar> < (2::int) ^ 53" by (simp add: s_def abs_mult)
    moreover have "- 1074 \<le> ?E - 51" using E by simp
    ultimately show ?thesis by (rule round_to_double_representable)
  qed
qed

lemma round_double_FinD:
  assumes "round_double x = Fin y"
  shows "y = round_to_double x" and "\<bar>y\<bar> < overflow_threshold" and "double_exponent x < 1024"
proof -
  from assms show y: "y = round_to_double x" and b: "\<bar>y\<bar> < overflow_threshold"
    by (auto simp: round_double_def Let_def split: if_splits)
  show "double_exponent x < 1024"
  proof (rule ccontr)
    assume "\<not> double_exponent x < 1024"
    with double_exponent_range(2)[of x] have E: "double_exponent x = 1024" by simp
    with double_exponent_lower[of x] have "power_int 2 1024 \<le> \<bar>x\<bar>" by simp
    then have "overflow_threshold \<le> \<bar>x\<bar>" by (simp add: overflow_threshold_def)
    from round_to_double_overflow[OF this] y b show False by simp
  qed
qed

lemma round_double_idem:
  assumes "round_double x = Fin y"
  shows "round_double y = Fin y"
proof -
  note d = round_double_FinD[OF assms]
  have "round_to_double y = y" unfolding d(1) using d(3) by (rule round_to_double_idem)
  with d(2) show ?thesis by (simp add: round_double_def Let_def)
qed

lemma round_double_error:
  assumes "round_double x = Fin y"
  shows "\<bar>y - x\<bar> \<le> \<bar>x\<bar> / 2 ^ 53 + 1 / 2 ^ 1075"
  using round_to_double_relative_error[of x] round_double_FinD(1)[OF assms] by simp

lemma round_double_overflow:
  assumes "overflow_threshold \<le> x"
  shows "round_double x = PosInfinity"
proof -
  have t: "0 < overflow_threshold" by (simp add: overflow_threshold_def)
  with assms have x: "0 < x" "overflow_threshold \<le> \<bar>x\<bar>" by simp_all
  have "0 \<le> round_to_double x"
    using x(1) ulp_pos[of x] round_half_even_nonneg[of "\<bar>x\<bar> / ulp x"]
    by (simp add: round_to_double_def Let_def)
  with round_to_double_overflow[OF x(2)] t show ?thesis
    by (simp add: round_double_def Let_def)
qed

lemma round_double_representable:
  assumes "x = of_int m * power_int 2 j" "\<bar>m\<bar> < 2 ^ 53" "- 1074 \<le> j"
    and "\<bar>x\<bar> < overflow_threshold"
  shows "round_double x = Fin x"
  using round_to_double_representable[OF assms(1-3)] assms(4)
  by (simp add: round_double_def Let_def)

lemma round_double_dyadic:
  assumes "\<bar>m\<bar> < 2 ^ 53" "k \<le> 1074" "\<bar>of_int m / 2 ^ k\<bar> < (2::real) ^ 1024"
  shows "round_double (of_int m / 2 ^ k) = Fin (of_int m / 2 ^ k)"
proof (rule round_double_representable[where m = m and j = "- int k"])
  show "of_int m / 2 ^ k = of_int m * power_int (2::real) (- int k)"
    by (simp add: power_int_minus field_simps)
qed (use assms in \<open>simp_all add: overflow_threshold_def\<close>)

lemma round_double_int:
  assumes "\<bar>m\<bar> < 2 ^ 53"
  shows "round_double (of_int m) = Fin (of_int m)"
proof -
  have "\<bar>(of_int m :: real)\<bar> < of_int (2 ^ 53)"
    using assms by (simp only: of_int_abs[symmetric] of_int_less_iff)
  also have "(of_int (2 ^ 53) :: real) \<le> 2 ^ 1024" by simp
  finally have "\<bar>of_int m / 2 ^ 0\<bar> < (2::real) ^ 1024" by simp
  from round_double_dyadic[OF assms _ this] show ?thesis by simp
qed

lemma round_double_numeral:
  assumes "(numeral n :: int) < 2 ^ 53"
  shows "round_double (numeral n) = Fin (numeral n)"
  using round_double_int[of "numeral n"] assms by simp

lemma round_double_0: "round_double 0 = Fin 0"
  using round_double_int[of 0] by simp

lemma round_double_1: "round_double 1 = Fin 1"
  using round_double_int[of 1] by simp

text \<open>A double plus zero is itself; so is an infinity or \<open>NaN\<close>.\<close>

lemma js_add_round_double_zero: "js_add (round_double x) (Fin 0) = round_double x"
proof (cases "round_double x")
  case (Fin y)
  with round_double_idem[OF Fin] show ?thesis by simp
qed simp_all

lemma js_add_signed_infinity_zero: "js_add (signed_infinity s) (Fin 0) = signed_infinity s"
  by (simp add: signed_infinity_def)

lemma js_add_js_div_zero: "js_add (js_div a b) (Fin 0) = js_div a b"
  by (cases a; cases b)
    (simp_all add: js_add_round_double_zero js_add_signed_infinity_zero round_double_0)

text \<open>
  Away from the ends of the range a rounding moves a positive number by at most \<open>2^-52\<close>
  of itself.
\<close>

lemma round_double_close:
  assumes lo: "1 / 2 ^ 1000 \<le> x" and hi: "x \<le> 2 ^ 1000"
  obtains y where "round_double x = Fin y"
    and "x * (1 - 1 / 2 ^ 52) \<le> y" and "y \<le> x * (1 + 1 / 2 ^ 52)"
proof -
  let ?y = "round_to_double x"
  have x0: "0 < x"
  proof -
    have "(0::real) < 1 / 2 ^ 1000" by simp
    with lo show ?thesis by linarith
  qed
  have small: "1 / 2 ^ 1075 \<le> x / 2 ^ 53"
  proof -
    have "(1::real) / 2 ^ 1075 = (1 / 2 ^ 1022) / 2 ^ 53"
      by (simp flip: power_add)
    also have "\<dots> \<le> x / 2 ^ 53"
    proof (intro divide_right_mono)
      have "(1::real) / 2 ^ 1022 \<le> 1 / 2 ^ 1000"
        by (intro divide_left_mono power_increasing) simp_all
      with lo show "1 / 2 ^ 1022 \<le> x" by linarith
    qed simp
    finally show ?thesis .
  qed
  have "\<bar>?y - x\<bar> \<le> \<bar>x\<bar> / 2 ^ 53 + 1 / 2 ^ 1075"
    by (rule round_to_double_relative_error)
  with small x0 have "\<bar>?y - x\<bar> \<le> x / 2 ^ 53 + x / 2 ^ 53" by simp
  also have "\<dots> = x / 2 ^ 52" by simp
  finally have e: "\<bar>?y - x\<bar> \<le> x / 2 ^ 52" .
  then have "x - x / 2 ^ 52 \<le> ?y" and "?y \<le> x + x / 2 ^ 52" by linarith+
  then have b: "x * (1 - 1 / 2 ^ 52) \<le> ?y" "?y \<le> x * (1 + 1 / 2 ^ 52)"
    by (simp_all only: right_diff_distrib distrib_left mult_1_right times_divide_eq_right)
  have "\<bar>?y\<bar> \<le> x * 2"
  proof -
    have "x / 2 ^ 52 \<le> x" using x0 by (simp add: field_simps)
    with e x0 show ?thesis by linarith
  qed
  also have "x * 2 \<le> 2 ^ 1000 * 2" using hi by simp
  also have "(2::real) ^ 1000 * 2 < 2 ^ 1024"
  proof -
    have "(2::real) ^ 1000 * 2 = 2 ^ 1001" by simp
    also have "\<dots> < 2 ^ 1024" by (intro power_strict_increasing) simp_all
    finally show ?thesis .
  qed
  finally have "\<bar>?y\<bar> < overflow_threshold" by (simp only: overflow_threshold_def)
  then have "round_double x = Fin ?y" by (simp add: round_double_def Let_def)
  from this b show ?thesis by (rule that)
qed

lemma round_double_between:
  assumes "lo \<le> x" "x \<le> hi" "1 / 2 ^ 1000 \<le> lo" "hi \<le> 2 ^ 1000"
  obtains y where "round_double x = Fin y" and "lo / 2 \<le> y" and "y \<le> hi * 2"
proof -
  from assms have "1 / 2 ^ 1000 \<le> x" "x \<le> 2 ^ 1000" by linarith+
  then obtain y where y: "round_double x = Fin y"
    "x * (1 - 1 / 2 ^ 52) \<le> y" "y \<le> x * (1 + 1 / 2 ^ 52)"
    by (rule round_double_close)
  have lo0: "0 < lo"
  proof -
    have "(0::real) < 1 / 2 ^ 1000" by simp
    with assms(3) show ?thesis by linarith
  qed
  have x0: "0 < x" using lo0 assms(1) by linarith
  have "x / 2 \<le> x * (1 - 1 / 2 ^ 52)" using x0 by (simp add: algebra_simps)
  with y(2) assms(1) have l: "lo / 2 \<le> y" by linarith
  have "x * (1 + 1 / 2 ^ 52) \<le> x * 2" using x0 by (simp add: algebra_simps)
  with y(3) assms(2) have h: "y \<le> hi * 2" by linarith
  from y(1) l h show ?thesis by (rule that)
qed

text \<open>One plus a quarter of the spacing of the doubles at 1, or less, rounds to 1.\<close>

lemma exp_up_below_two: "x < 2 \<Longrightarrow> exp_up k x = 0"
  by (cases k) simp_all

lemma round_double_one_plus_small:
  assumes "0 \<le> r" "r \<le> 1 / 2 ^ 54"
  shows "round_double (1 + r) = Fin 1"
proof -
  let ?x = "1 + r"
  have r1: "r < 1"
  proof -
    have "(1::real) / 2 ^ 54 < 1" by simp
    with assms show ?thesis by linarith
  qed
  have E: "double_exponent ?x = 0"
    using assms r1 by (simp add: double_exponent_def exp_up_below_two)
  have u: "ulp ?x = 1 / 2 ^ 52" by (simp add: ulp_def E power_int_minus field_simps)
  have q: "\<bar>?x\<bar> / ulp ?x = 2 ^ 52 + r * 2 ^ 52" using assms by (simp add: u algebra_simps)
  have s: "r * 2 ^ 52 \<le> 1 / 4"
  proof -
    have "r * 2 ^ 52 \<le> 1 / 2 ^ 54 * 2 ^ 52" using assms by (intro mult_right_mono) simp_all
    then show ?thesis by simp
  qed
  have s0: "0 \<le> r * 2 ^ 52" using assms by simp
  have fl: "\<lfloor>2 ^ 52 + r * 2 ^ 52\<rfloor> = 2 ^ 52"
    using s s0 by (intro floor_unique) simp_all
  have "round_half_even (2 ^ 52 + r * 2 ^ 52) = 2 ^ 52"
    using s unfolding round_half_even_def Let_def fl by simp
  then have "round_to_double ?x = 1" using assms
    by (simp add: round_to_double_def Let_def q u)
  then show ?thesis by (simp add: round_double_def Let_def overflow_threshold_def)
qed

lemma round_double_within:
  assumes "lo \<le> x" "x \<le> hi" "1 / 2 ^ 1000 \<le> lo" "hi \<le> 2 ^ 1000"
  obtains y where "round_double x = Fin y"
    and "lo * (1 - 1 / 2 ^ 52) \<le> y" and "y \<le> hi * (1 + 1 / 2 ^ 52)"
proof -
  from assms have "1 / 2 ^ 1000 \<le> x" "x \<le> 2 ^ 1000" by linarith+
  then obtain y where y: "round_double x = Fin y"
    "x * (1 - 1 / 2 ^ 52) \<le> y" "y \<le> x * (1 + 1 / 2 ^ 52)"
    by (rule round_double_close)
  have "lo * (1 - 1 / 2 ^ 52) \<le> x * (1 - 1 / 2 ^ 52)"
    using assms(1) by (intro mult_right_mono) simp_all
  with y(2) have l: "lo * (1 - 1 / 2 ^ 52) \<le> y" by linarith
  have "x * (1 + 1 / 2 ^ 52) \<le> hi * (1 + 1 / 2 ^ 52)"
    using assms(2) by (intro mult_right_mono) simp_all
  with y(3) have h: "y \<le> hi * (1 + 1 / 2 ^ 52)" by linarith
  from y(1) l h show ?thesis by (rule that)
qed

text \<open>
  Between 1 and 2 the doubles are \<open>2^-52\<close> apart: one plus \<open>r\<close> rounds to one plus
  \<open>k \<times> 2^-52\<close> when \<open>r\<close> is at \<open>k \<times> 2^-52\<close> or less than half a step above.
\<close>

lemma round_double_one_plus:
  assumes lo: "real k \<le> r * 2 ^ 52" and hi: "r * 2 ^ 52 < real k + 1 / 2" and r1: "r < 1"
  shows "round_double (1 + r) = Fin (1 + real k / 2 ^ 52)"
proof -
  let ?x = "1 + r"
  have r0: "0 \<le> r"
  proof -
    have "0 \<le> r * 2 ^ 52" using lo by linarith
    then show ?thesis by (simp add: zero_le_mult_iff)
  qed
  have E: "double_exponent ?x = 0"
    using r0 r1 by (simp add: double_exponent_def exp_up_below_two)
  have u: "ulp ?x = 1 / 2 ^ 52" by (simp add: ulp_def E power_int_minus field_simps)
  have q: "\<bar>?x\<bar> / ulp ?x = 2 ^ 52 + r * 2 ^ 52" using r0 by (simp add: u algebra_simps)
  have fl: "\<lfloor>2 ^ 52 + r * 2 ^ 52\<rfloor> = 2 ^ 52 + int k"
    using lo hi by (intro floor_unique) simp_all
  have rh: "round_half_even (2 ^ 52 + r * 2 ^ 52) = 2 ^ 52 + int k"
    using hi unfolding round_half_even_def Let_def fl by simp
  have y: "round_to_double ?x = 1 + real k / 2 ^ 52" using r0 rh
    by (simp add: round_to_double_def Let_def q u add_divide_distrib)
  have "real k < 2 ^ 52"
  proof -
    have "r * 2 ^ 52 < 1 * 2 ^ 52" using r1 by (intro mult_strict_right_mono) simp_all
    with lo show ?thesis by simp
  qed
  then have "real k / 2 ^ 52 < 1" by simp
  then have "\<bar>1 + real k / 2 ^ 52\<bar> < 2" by simp
  also have "(2::real) \<le> overflow_threshold"
    unfolding overflow_threshold_def using power_increasing[of 1 1024 "2::real"] by simp
  finally show ?thesis by (simp add: round_double_def Let_def y)
qed

text \<open>A power of \<open>1 + x\<close> from above, to go with Bernoulli's inequality from below.\<close>

lemma power_one_plus_upper:
  fixes x :: real
  assumes x: "0 \<le> x" "x \<le> 1" and nx: "real n * x < 1"
  shows "(1 + x) ^ n \<le> 1 / (1 - real n * x)"
proof -
  have "1 + real n * (- x) \<le> (1 + (- x)) ^ n"
    using x by (intro Bernoulli_inequality) simp
  then have b: "1 - real n * x \<le> (1 - x) ^ n" by simp
  have "(1 + x) ^ n * (1 - real n * x) \<le> (1 + x) ^ n * (1 - x) ^ n"
    using b x by (intro mult_left_mono) simp_all
  also have "\<dots> = ((1 + x) * (1 - x)) ^ n" by (simp add: power_mult_distrib)
  also have "(1 + x) * (1 - x) = 1 - x ^ 2" by (simp add: power2_eq_square algebra_simps)
  also have "(1 - x ^ 2) ^ n \<le> 1"
  proof (rule power_le_one)
    have "x ^ 2 \<le> 1" using x by (simp add: power_le_one)
    then show "0 \<le> 1 - x ^ 2" by simp
    show "1 - x ^ 2 \<le> 1" by simp
  qed
  finally have "(1 + x) ^ n * (1 - real n * x) \<le> 1" .
  then show ?thesis using nx by (simp add: pos_le_divide_eq)
qed

section \<open>What validation admits\<close>

lemma validate_NoneD:
  assumes "validateInputs i p t f = None"
  shows "\<exists>a. i = Fin a \<and> 0 \<le> a \<and> a \<le> 100"
    and "p = PosInfinity \<or> (\<exists>x. p = Fin x \<and> 0 < x)"
    and "\<exists>y::nat. t = Fin (real y) \<and> 0 < y"
    and "f = PosInfinity \<or> (\<exists>z. f = Fin z \<and> 0 \<le> z)"
proof -
  show "\<exists>a. i = Fin a \<and> 0 \<le> a \<and> a \<le> 100"
    using assms
    by (cases i) (auto simp: validateInputs_def isNaN_def js_greater_def split: if_splits)
  show "p = PosInfinity \<or> (\<exists>x. p = Fin x \<and> 0 < x)"
    using assms by (cases p) (auto simp: validateInputs_def isNaN_def split: if_splits)
  show "f = PosInfinity \<or> (\<exists>z. f = Fin z \<and> 0 \<le> z)"
    using assms by (cases f) (auto simp: validateInputs_def isNaN_def split: if_splits)
  from assms obtain d where d: "t = Fin d" "0 < d" "of_int \<lfloor>d\<rfloor> = d"
    by (cases t) (auto simp: validateInputs_def isNaN_def split: if_splits)
  then have "d = real (nat \<lfloor>d\<rfloor>)" "0 < nat \<lfloor>d\<rfloor>"
    by (auto simp: of_nat_nat)
  with d show "\<exists>y::nat. t = Fin (real y) \<and> 0 < y" by blast
qed

section \<open>The engine on validated inputs\<close>

text \<open>
  A rate of \<open>1200 \<times> 2^-60\<close> percent (about \<open>1.04e-15\<close>) is a double between 0 and 100.
  Its monthly rate \<open>2^-60\<close> is not zero, so the guard \<open>monthlyRate === 0\<close> does not
  fire; but \<open>1 + 2^-60\<close> rounds to 1, the compound factor is 1 and the formula divides
  by \<open>1 - 1 = 0\<close>.
\<close>

lemma round_one_plus_tiny: "round_double (1 + 1 / 2 ^ 60) = Fin 1"
  by (simp add: round_double_def round_to_double_def ulp_def double_exponent_def
      round_half_even_def Let_def overflow_threshold_def numeral_eq_Suc)

lemma tiny_rate:
  "js_div (js_div (Fin (1200 / 2 ^ 60)) (Fin 100)) (Fin 12) = Fin (1 / 2 ^ 60)"
proof -
  have "js_div (Fin (1200 / 2 ^ 60)) (Fin 100) = Fin (12 / 2 ^ 60)"
    using round_double_dyadic[of 12 60] by simp
  moreover have "js_div (Fin (12 / 2 ^ 60)) (Fin 12) = Fin (1 / 2 ^ 60)"
    using round_double_dyadic[of 1 60] by simp
  ultimately show ?thesis by simp
qed


lemma tiny_rate_engine:
  "calculateMortgage (Fin 100000) (Fin (1200 / 2 ^ 60)) (Fin 30)
     = \<lparr>monthlyPayment = PosInfinity, totalInterest = PosInfinity, totalAmount = PosInfinity\<rparr>"
proof -
  have n: "js_mul (Fin 30) (Fin 12) = Fin 360"
    by (simp add: round_double_numeral)
  have r0: "Fin (1 / 2 ^ 60) \<noteq> Fin 0" by simp
  have b: "js_add (Fin 1) (Fin (1 / 2 ^ 60)) = Fin 1"
    using round_one_plus_tiny by simp
  have c: "Math_pow (Fin 1) (Fin 360) = Fin 1"
    by (simp add: round_double_1)
  have rc: "js_mul (Fin (1 / 2 ^ 60)) (Fin 1) = Fin (1 / 2 ^ 60)"
    using round_double_dyadic[of 1 60] by simp
  have prc: "js_mul (Fin 100000) (Fin (1 / 2 ^ 60)) = Fin (100000 / 2 ^ 60)"
    using round_double_dyadic[of 100000 60] by simp
  have d: "js_sub (Fin 1) (Fin 1) = Fin 0"
    by (simp add: js_sub_def round_double_0)
  have m: "js_div (Fin (100000 / 2 ^ 60)) (Fin 0) = PosInfinity"
    by (simp add: signed_infinity_def)
  have ta: "js_mul PosInfinity (Fin 360) = PosInfinity"
    by (simp add: signed_infinity_def)
  have ti: "js_sub PosInfinity (Fin 100000) = PosInfinity"
    by (simp add: js_sub_def)
  show ?thesis
    unfolding calculateMortgage_def Let_def tiny_rate n b c rc prc d m ta ti
    using r0 by (simp only: if_False ta ti)
qed

text \<open>
  At 75 percent over 1024 years the compound factor \<open>(17/16)^12288\<close> lies beyond the
  largest double: \<open>Math.pow\<close> returns \<open>Infinity\<close>, and \<open>Infinity / Infinity\<close> is
  \<open>NaN\<close>.
\<close>

lemma compound_factor_overflows: "Math_pow (Fin (17 / 16)) (Fin 12288) = PosInfinity"
proof -
  have "(2::real) \<le> (17 / 16) ^ 12" by (simp add: power_divide)
  then have "(2::real) ^ 1024 \<le> ((17 / 16) ^ 12) ^ 1024" by (intro power_mono) simp_all
  also have "((17 / 16) ^ 12) ^ 1024 = (17 / 16 :: real) ^ 12288"
    by (simp only: power_mult[symmetric]) simp
  finally have "overflow_threshold \<le> (17 / 16 :: real) ^ 12288"
    by (simp only: overflow_threshold_def)
  then have r: "round_double ((17 / 16) ^ 12288) = PosInfinity" by (rule round_double_overflow)
  have "Math_pow (Fin (17 / 16)) (Fin 12288) = round_double (power_int (17 / 16) 12288)"
    by simp
  also have "power_int (17 / 16 :: real) 12288 = (17 / 16) ^ 12288"
    by (simp only: power_int_numeral)
  finally show ?thesis using r by (simp only:)
qed

lemma overflow_engine:
  "calculateMortgage (Fin 100000) (Fin 75) (Fin 1024)
     = \<lparr>monthlyPayment = NaN, totalInterest = NaN, totalAmount = NaN\<rparr>"
proof -
  have r: "js_div (js_div (Fin 75) (Fin 100)) (Fin 12) = Fin (1 / 16)"
  proof -
    have "js_div (Fin 75) (Fin 100) = Fin (3 / 4)"
      using round_double_dyadic[of 3 2] by simp
    moreover have "js_div (Fin (3 / 4)) (Fin 12) = Fin (1 / 16)"
      using round_double_dyadic[of 1 4] by simp
    ultimately show ?thesis by simp
  qed
  have r0: "Fin (1 / 16) \<noteq> Fin 0" by simp
  have n: "js_mul (Fin 1024) (Fin 12) = Fin 12288"
    by (simp add: round_double_numeral)
  have b: "js_add (Fin 1) (Fin (1 / 16)) = Fin (17 / 16)"
    using round_double_dyadic[of 17 4] by simp
  note c = compound_factor_overflows
  have rc: "js_mul (Fin (1 / 16)) PosInfinity = PosInfinity"
    by (simp add: signed_infinity_def)
  have prc: "js_mul (Fin 100000) PosInfinity = PosInfinity"
    by (simp add: signed_infinity_def)
  have d: "js_sub PosInfinity (Fin 1) = PosInfinity"
    by (simp add: js_sub_def)
  have m: "js_div PosInfinity PosInfinity = NaN" by simp
  have ta: "js_mul NaN (Fin 12288) = NaN" by simp
  have ti: "js_sub NaN (Fin 100000) = NaN" by (simp add: js_sub_def)
  show ?thesis
    unfolding calculateMortgage_def Let_def r n b c rc prc d m ta ti
    using r0 by (simp only: if_False ta ti)
qed

text \<open>
  At 0 percent the payment for 100000 over 30 years is the double nearest to
  \<open>100000/360\<close>.
\<close>

lemma zero_rate_example:
  "monthlyPayment (calculateMortgage (Fin 100000) (Fin 0) (Fin 30))
     = Fin (4886718345671111 / 2 ^ 44)"
  by (simp add: calculateMortgage_def Let_def round_double_0 round_double_numeral
      round_double_def round_to_double_def ulp_def double_exponent_def
      round_half_even_def overflow_threshold_def numeral_eq_Suc)

lemma tiny_rate_valid:
  "validateInputs (Fin (1200 / 2 ^ 60)) (Fin 100000) (Fin 30) (Fin 0) = None"
  by (simp add: validateInputs_def isNaN_def js_greater_def)

lemma overflow_valid: "validateInputs (Fin 75) (Fin 100000) (Fin 1024) (Fin 0) = None"
  by (simp add: validateInputs_def isNaN_def js_greater_def)

text \<open>
  The formula's payment, over the reals, lies between zero and the principal for a monthly
  rate below one half and two payments or more.
\<close>

lemma formula_payment_bounds:
  fixes r :: real
  assumes r: "0 < r" "r < 1 / 2" and n: "2 \<le> n" and p: "0 < p"
  shows "0 < p * r * (1 + r) ^ n / ((1 + r) ^ n - 1)"
    and "p * r * (1 + r) ^ n / ((1 + r) ^ n - 1) < p"
proof -
  let ?c = "(1 + r) ^ n"
  have c1: "1 < ?c" using r n by (intro one_less_power) simp_all
  then show "0 < p * r * ?c / (?c - 1)" using r p by simp
  have sq: "(1 + r) ^ 2 \<le> ?c" using r n by (intro power_increasing) simp_all
  have one: "1 < (1 + r) ^ 2 * (1 - r)"
  proof -
    have "(1 + r) ^ 2 * (1 - r) = 1 + r * (1 - r - r ^ 2)"
      by (simp add: power2_eq_square algebra_simps)
    moreover have "r ^ 2 < 1 / 4"
      using r power_strict_mono[of r "1 / 2" 2] by (simp add: power2_eq_square)
    ultimately show ?thesis using r by simp
  qed
  have "(1 + r) ^ 2 * (1 - r) \<le> ?c * (1 - r)"
    using sq r by (intro mult_right_mono) simp_all
  with one have "1 < ?c * (1 - r)" by linarith
  then have "r * ?c < ?c - 1" by (simp add: algebra_simps)
  then have "r * ?c / (?c - 1) < 1" using c1 by simp
  then have "p * (r * ?c / (?c - 1)) < p * 1" using p by (intro mult_strict_left_mono)
  then show "p * r * ?c / (?c - 1) < p" by (simp add: mult.assoc)
qed

text \<open>
  The same happens at the rate \<open>1e-20\<close>, the double nearest to \<open>10^-20\<close>: the rate, its
  hundredth and the twelfth of that are doubles within a factor of two of the exact
  quotients, so the monthly rate is positive and far below \<open>2^-54\<close>.
\<close>

lemma decimal_tiny_rate_engine:
  obtains a where "round_double (1 / 10 ^ 20) = Fin a" and "0 < a" and "a < 1"
    and "validateInputs (Fin a) (Fin 100000) (Fin 30) (Fin 0) = None"
    and "calculateMortgage (Fin 100000) (Fin a) (Fin 30)
       = \<lparr>monthlyPayment = PosInfinity, totalInterest = PosInfinity,
          totalAmount = PosInfinity\<rparr>"
proof -
  obtain a where a: "round_double (1 / 10 ^ 20) = Fin a"
    "1 / 10 ^ 20 / 2 \<le> a" "a \<le> 1 / 10 ^ 20 * 2"
    by (rule round_double_between[of "1 / 10 ^ 20" "1 / 10 ^ 20" "1 / 10 ^ 20"]) simp_all
  obtain b where b: "round_double (a / 100) = Fin b"
    "1 / 10 ^ 23 / 2 \<le> b" "b \<le> 1 / 10 ^ 21 * 2"
    by (rule round_double_between[of "1 / 10 ^ 23" "a / 100" "1 / 10 ^ 21"])
      (use a(2,3) in simp_all)
  obtain r where r: "round_double (b / 12) = Fin r"
    "1 / 10 ^ 25 / 2 \<le> r" "r \<le> 1 / 10 ^ 21 * 2"
    by (rule round_double_between[of "1 / 10 ^ 25" "b / 12" "1 / 10 ^ 21"])
      (use b(2,3) in simp_all)
  obtain w where w: "round_double (100000 * r) = Fin w"
    "1 / 10 ^ 21 / 2 \<le> w" "w \<le> 1 / 10 ^ 15 * 2"
    by (rule round_double_between[of "1 / 10 ^ 21" "100000 * r" "1 / 10 ^ 15"])
      (use r(2,3) in simp_all)
  have a0: "0 < a" "a < 1" using a(2,3) by simp_all
  have r0: "0 < r" using r(2) by simp
  have w0: "0 < w" using w(2) by simp
  have rate: "js_div (js_div (Fin a) (Fin 100)) (Fin 12) = Fin r"
    by (simp add: b(1) r(1))
  have guard: "Fin r \<noteq> Fin 0" using r0 by simp
  have n: "js_mul (Fin 30) (Fin 12) = Fin 360" by (simp add: round_double_numeral)
  have base: "js_add (Fin 1) (Fin r) = Fin 1"
    using round_double_one_plus_small[of r] r0 r(3) by simp
  have c: "Math_pow (Fin 1) (Fin 360) = Fin 1" by (simp add: round_double_1)
  have rc: "js_mul (Fin r) (Fin 1) = Fin r" using round_double_idem[OF r(1)] by simp
  have prc: "js_mul (Fin 100000) (Fin r) = Fin w" using w(1) by simp
  have d: "js_sub (Fin 1) (Fin 1) = Fin 0" by (simp add: js_sub_def round_double_0)
  have m: "js_div (Fin w) (Fin 0) = PosInfinity" using w0 by (simp add: signed_infinity_def)
  have ta: "js_mul PosInfinity (Fin 360) = PosInfinity" by (simp add: signed_infinity_def)
  have ti: "js_sub PosInfinity (Fin 100000) = PosInfinity" by (simp add: js_sub_def)
  have e: "calculateMortgage (Fin 100000) (Fin a) (Fin 30)
       = \<lparr>monthlyPayment = PosInfinity, totalInterest = PosInfinity,
          totalAmount = PosInfinity\<rparr>"
    unfolding calculateMortgage_def Let_def rate n base c rc prc d m
    using guard by (simp only: if_False ta ti)
  have v: "validateInputs (Fin a) (Fin 100000) (Fin 30) (Fin 0) = None"
    using a(2,3) by (simp add: validateInputs_def isNaN_def js_greater_def)
  from a(1) a0 v e show ?thesis by (rule that)
qed

text \<open>
  At 100 percent over 800 years the monthly rate is the double nearest to \<open>1/12\<close>, the
  base \<open>1 + r\<close> is at least 1.083, and the compound factor, its power 9600, is at least
  \<open>2^1066\<close>: \<open>Math.pow\<close> returns \<open>Infinity\<close> and the payment is \<open>NaN\<close>.
\<close>

lemma century_rate_valid: "validateInputs (Fin 100) (Fin 100000) (Fin 800) (Fin 0) = None"
  by (simp add: validateInputs_def isNaN_def js_greater_def)

lemma century_rate_engine:
  "calculateMortgage (Fin 100000) (Fin 100) (Fin 800)
       = \<lparr>monthlyPayment = NaN, totalInterest = NaN, totalAmount = NaN\<rparr>"
proof -
  obtain y where y: "round_double (1 / 12) = Fin y"
    "1 / 12 * (1 - 1 / 2 ^ 52) \<le> y" "y \<le> 1 / 12 * (1 + 1 / 2 ^ 52)"
    by (rule round_double_close[of "1 / 12"]) simp_all
  have y1: "833 / 10000 \<le> y" "y \<le> 1" using y(2,3) by simp_all
  obtain z where z: "round_double (1 + y) = Fin z"
    "(1 + y) * (1 - 1 / 2 ^ 52) \<le> z" "z \<le> (1 + y) * (1 + 1 / 2 ^ 52)"
    by (rule round_double_close[of "1 + y"]) (use y1 in simp_all)
  have z1: "1083 / 1000 \<le> z"
  proof -
    have "(1083 / 1000 :: real) \<le> (1 + 833 / 10000) * (1 - 1 / 2 ^ 52)" by simp
    also have "\<dots> \<le> (1 + y) * (1 - 1 / 2 ^ 52)"
      using y1(1) by (intro mult_right_mono) simp_all
    finally show ?thesis using z(2) by linarith
  qed
  have big: "overflow_threshold \<le> z ^ 9600"
  proof -
    have "(2::real) \<le> (1083 / 1000) ^ 9" by (simp add: power_divide)
    then have "(2::real) ^ 1066 \<le> ((1083 / 1000) ^ 9) ^ 1066" by (intro power_mono) simp_all
    also have "\<dots> = (1083 / 1000 :: real) ^ 9594" by (simp only: power_mult[symmetric]) simp
    also have "\<dots> \<le> (1083 / 1000) ^ 9600" by (intro power_increasing) simp_all
    also have "\<dots> \<le> z ^ 9600" using z1 by (intro power_mono) simp_all
    finally have "(2::real) ^ 1066 \<le> z ^ 9600" .
    moreover have "(2::real) ^ 1024 \<le> 2 ^ 1066" by (intro power_increasing) simp_all
    ultimately show ?thesis unfolding overflow_threshold_def by (rule order_trans[rotated])
  qed
  have rate: "js_div (js_div (Fin 100) (Fin 100)) (Fin 12) = Fin y"
    by (simp add: round_double_1 y(1))
  have guard: "Fin y \<noteq> Fin 0" using y1 by simp
  have n: "js_mul (Fin 800) (Fin 12) = Fin 9600" by (simp add: round_double_numeral)
  have base: "js_add (Fin 1) (Fin y) = Fin z" by (simp add: z(1))
  have c: "Math_pow (Fin z) (Fin 9600) = PosInfinity"
  proof -
    have z0: "z \<noteq> 0" using z1 by simp
    have "Math_pow (Fin z) (Fin 9600) = round_double (power_int z 9600)"
      using z0 by simp
    also have "power_int z 9600 = z ^ 9600" by (simp only: power_int_numeral)
    finally show ?thesis using round_double_overflow[OF big] by (simp only:)
  qed
  have rc: "js_mul (Fin y) PosInfinity = PosInfinity"
    using y1 by (simp add: signed_infinity_def)
  have prc: "js_mul (Fin 100000) PosInfinity = PosInfinity" by (simp add: signed_infinity_def)
  have d: "js_sub PosInfinity (Fin 1) = PosInfinity" by (simp add: js_sub_def)
  have m: "js_div PosInfinity PosInfinity = NaN" by simp
  have ta: "js_mul NaN (Fin 9600) = NaN" by simp
  have ti: "js_sub NaN (Fin 100000) = NaN" by (simp add: js_sub_def)
  show ?thesis
    unfolding calculateMortgage_def Let_def rate n base c rc prc d m
    using guard by (simp only: if_False ta ti)
qed

text \<open>
  At the rate \<open>2^-40\<close> the result is finite, and wrong: the base \<open>1 + r\<close> rounds to
  \<open>1 + 3 \<times> 2^-52\<close>, the denominator carries the error of that rounding, and the payment
  is above 312 where the formula's is below 279.
\<close>

lemma small_rate_engine:
  obtains m where
    "monthlyPayment (calculateMortgage (Fin 100000) (Fin (1 / 2 ^ 40)) (Fin 30)) = Fin m"
    and "312 \<le> m" and "m \<le> 322"
proof -
  obtain b where b: "round_double (1 / 2 ^ 40 / 100) = Fin b"
    "1 / 2 ^ 40 / 100 * (1 - 1 / 2 ^ 52) \<le> b" "b \<le> 1 / 2 ^ 40 / 100 * (1 + 1 / 2 ^ 52)"
    by (rule round_double_within[of "1 / 2 ^ 40 / 100" "1 / 2 ^ 40 / 100" "1 / 2 ^ 40 / 100"])
      simp_all
  have b1: "409 / 10 / 2 ^ 52 \<le> b" "b \<le> 41 / 2 ^ 52" using b(2,3) by simp_all
  obtain r where r: "round_double (b / 12) = Fin r"
    "409 / 120 / 2 ^ 52 * (1 - 1 / 2 ^ 52) \<le> r" "r \<le> 41 / 12 / 2 ^ 52 * (1 + 1 / 2 ^ 52)"
    by (rule round_double_within[of "409 / 120 / 2 ^ 52" "b / 12" "41 / 12 / 2 ^ 52"])
      (use b1 in simp_all)
  have r1: "34 / 10 / 2 ^ 52 \<le> r" "r \<le> 345 / 100 / 2 ^ 52" using r(2,3) by simp_all
  have rate: "js_div (js_div (Fin (1 / 2 ^ 40)) (Fin 100)) (Fin 12) = Fin r"
  proof -
    have "js_div (Fin (1 / 2 ^ 40)) (Fin 100) = Fin b" using b(1) by simp
    moreover have "js_div (Fin b) (Fin 12) = Fin r" by (simp add: r(1))
    ultimately show ?thesis by (simp only:)
  qed
  have guard: "Fin r \<noteq> Fin 0" using r1 by auto
  have n: "js_mul (Fin 30) (Fin 12) = Fin 360" by (simp add: round_double_numeral)
  let ?z = "1 + 3 / 2 ^ 52 :: real"
  have base: "js_add (Fin 1) (Fin r) = Fin ?z"
    using round_double_one_plus[of 3 r] r1 by simp
  have zl: "1 + 1080 / 2 ^ 52 \<le> ?z ^ 360"
    using Bernoulli_inequality[of "3 / 2 ^ 52" 360] by simp
  have zh: "?z ^ 360 \<le> 1 + 1081 / 2 ^ 52"
  proof -
    have "?z ^ 360 \<le> 1 / (1 - real 360 * (3 / 2 ^ 52))"
      by (rule power_one_plus_upper) simp_all
    also have "\<dots> \<le> 1 + 1081 / 2 ^ 52" by simp
    finally show ?thesis .
  qed
  obtain c where c: "round_double (?z ^ 360) = Fin c"
    "(1 + 1080 / 2 ^ 52) * (1 - 1 / 2 ^ 52) \<le> c" "c \<le> (1 + 1081 / 2 ^ 52) * (1 + 1 / 2 ^ 52)"
    by (rule round_double_within[of "1 + 1080 / 2 ^ 52" "?z ^ 360" "1 + 1081 / 2 ^ 52"])
      (use zl zh in simp_all)
  have c1: "1 + 1078 / 2 ^ 52 \<le> c" "c \<le> 1 + 1083 / 2 ^ 52" using c(2,3) by simp_all
  have pw: "Math_pow (Fin ?z) (Fin 360) = Fin c"
  proof -
    have "Math_pow (Fin ?z) (Fin 360) = round_double (power_int ?z 360)" by simp
    also have "power_int ?z 360 = ?z ^ 360" by (simp only: power_int_numeral)
    finally show ?thesis by (simp only: c(1))
  qed
  obtain d where d: "round_double (c - 1) = Fin d"
    "1078 / 2 ^ 52 * (1 - 1 / 2 ^ 52) \<le> d" "d \<le> 1083 / 2 ^ 52 * (1 + 1 / 2 ^ 52)"
    by (rule round_double_within[of "1078 / 2 ^ 52" "c - 1" "1083 / 2 ^ 52"])
      (use c1 in simp_all)
  have d1: "1077 / 2 ^ 52 \<le> d" "d \<le> 1084 / 2 ^ 52" using d(2,3) by simp_all
  have sub: "js_sub (Fin c) (Fin 1) = Fin d" by (simp add: js_sub_def d(1))
  have rcl: "34 / 10 / 2 ^ 52 \<le> r * c"
  proof -
    have "34 / 10 / 2 ^ 52 * 1 \<le> r * c" using r1 c1 by (intro mult_mono) simp_all
    then show ?thesis by simp
  qed
  have rch: "r * c \<le> 345 / 100 / 2 ^ 52 * (1 + 1083 / 2 ^ 52)"
    using r1 c1 by (intro mult_mono) simp_all
  obtain q where q: "round_double (r * c) = Fin q"
    "34 / 10 / 2 ^ 52 * (1 - 1 / 2 ^ 52) \<le> q"
    "q \<le> 345 / 100 / 2 ^ 52 * (1 + 1083 / 2 ^ 52) * (1 + 1 / 2 ^ 52)"
    by (rule round_double_within[of "34 / 10 / 2 ^ 52" "r * c"
          "345 / 100 / 2 ^ 52 * (1 + 1083 / 2 ^ 52)"])
      (use rcl rch in simp_all)
  have q1: "339 / 100 / 2 ^ 52 \<le> q" "q \<le> 346 / 100 / 2 ^ 52" using q(2,3) by simp_all
  have rc: "js_mul (Fin r) (Fin c) = Fin q" by (simp add: q(1))
  obtain w where w: "round_double (100000 * q) = Fin w"
    "339000 / 2 ^ 52 * (1 - 1 / 2 ^ 52) \<le> w" "w \<le> 346000 / 2 ^ 52 * (1 + 1 / 2 ^ 52)"
    by (rule round_double_within[of "339000 / 2 ^ 52" "100000 * q" "346000 / 2 ^ 52"])
      (use q1 in simp_all)
  have w1: "338999 / 2 ^ 52 \<le> w" "w \<le> 346001 / 2 ^ 52" using w(2,3) by simp_all
  have prc: "js_mul (Fin 100000) (Fin q) = Fin w" by (simp add: w(1))
  have d0: "0 < d" using d1 by simp
  have ql: "338999 / 1084 \<le> w / d"
  proof -
    have "(338999 / 2 ^ 52) / (1084 / 2 ^ 52) \<le> w / d"
      using w1 d1 d0 by (intro frac_le) simp_all
    then show ?thesis by simp
  qed
  have qh: "w / d \<le> 346001 / 1077"
  proof -
    have "w / d \<le> (346001 / 2 ^ 52) / (1077 / 2 ^ 52)"
      using w1 d1 d0 by (intro frac_le) simp_all
    then show ?thesis by simp
  qed
  obtain m where m: "round_double (w / d) = Fin m"
    "338999 / 1084 * (1 - 1 / 2 ^ 52) \<le> m" "m \<le> 346001 / 1077 * (1 + 1 / 2 ^ 52)"
    by (rule round_double_within[of "338999 / 1084" "w / d" "346001 / 1077"])
      (use ql qh in simp_all)
  have m1: "312 \<le> m" "m \<le> 322" using m(2,3) by simp_all
  have dv: "js_div (Fin w) (Fin d) = Fin m" using d0 by (simp add: m(1))
  have "monthlyPayment (calculateMortgage (Fin 100000) (Fin (1 / 2 ^ 40)) (Fin 30)) = Fin m"
    unfolding calculateMortgage_def Let_def rate n base pw rc prc sub dv
    using guard by (simp only: if_False mortgage_result.simps)
  from this m1 show ?thesis by (rule that)
qed

lemma small_rate_formula:
  obtains m where "monthlyPayment (computePayment 100000 (1 / 2 ^ 40) 30) = Fin m"
    and "277 \<le> m" and "m \<le> 279"
proof -
  let ?r = "1 / 2 ^ 40 / 100 / 12 :: real"
  let ?c = "(1 + ?r) ^ 360"
  let ?m = "100000 * ?r * ?c / (?c - 1)"
  have cl: "1 + 360 * ?r \<le> ?c"
    using Bernoulli_inequality[of ?r 360] by simp
  have ch: "?c \<le> 1 / (1 - real 360 * ?r)"
    by (rule power_one_plus_upper) simp_all
  have ch': "?c \<le> 1001 / 1000"
  proof -
    have "1 / (1 - real 360 * ?r) \<le> 1001 / 1000" by simp
    with ch show ?thesis by linarith
  qed
  have r0: "0 < ?r" by simp
  have d0: "0 < ?c - 1" using cl r0 by linarith
  have up: "?m \<le> 279"
  proof -
    have "100000 * ?r * ?c \<le> 100000 * ?r * (1001 / 1000)"
      using ch' by (intro mult_left_mono) simp_all
    moreover have "360 * ?r \<le> ?c - 1" using cl by linarith
    ultimately have "?m \<le> (100000 * ?r * (1001 / 1000)) / (360 * ?r)"
      using d0 by (intro frac_le) simp_all
    also have "\<dots> \<le> 279" by simp
    finally show ?thesis .
  qed
  have lo: "277 \<le> ?m"
  proof -
    have h: "?c - 1 \<le> 1 / (1 - real 360 * ?r) - 1" using ch by linarith
    have c1: "1 \<le> ?c" using cl r0 by linarith
    have "100000 * ?r * 1 \<le> 100000 * ?r * ?c" using c1 by (intro mult_left_mono) simp_all
    then have "(100000 * ?r * 1) / (1 / (1 - real 360 * ?r) - 1) \<le> ?m"
      using h d0 by (intro frac_le) simp_all
    moreover have "277 \<le> (100000 * ?r * 1) / (1 / (1 - real 360 * ?r) - 1)" by simp
    ultimately show ?thesis by linarith
  qed
  have "monthlyPayment (computePayment 100000 (1 / 2 ^ 40) 30) = Fin ?m"
    by (simp add: computePayment_def Let_def)
  from this lo up show ?thesis by (rule that)
qed

lemma small_rate_valid:
  "validateInputs (Fin (1 / 2 ^ 40)) (Fin 100000) (Fin 30) (Fin 0) = None"
  by (simp add: validateInputs_def isNaN_def js_greater_def)

text \<open>
  C1, the equality of \<open>calculateMortgage\<close> with the amortization formula, on the code.
  For a principal of 100000 at 100 percent over 800 years, inside the claim's domain, the
  code returns a monthly payment of \<open>NaN\<close>, where the formula's payment is a real number
  between 0 and 100000; so it does at 75 percent over 1024 years. Over 30 years at the
  rate \<open>1e-20\<close>, and at the rate of \<open>1200 \<times> 2^-60\<close> percent, it returns \<open>Infinity\<close>,
  where the formula's payment again is between 0 and 100000. Over 30 years at the rate
  \<open>2^-40\<close> it returns a number above 312, where the formula's payment is below 279.
\<close>

theorem calculateMortgage_misses_formula:
  "validateInputs (Fin 100) (Fin 100000) (Fin 800) (Fin 0) = None
   \<and> monthlyPayment (calculateMortgage (Fin 100000) (Fin 100) (Fin 800)) = NaN
   \<and> (\<exists>m. monthlyPayment (computePayment 100000 100 800) = Fin m \<and> 0 < m \<and> m < 100000)
   \<and> (\<exists>a. round_double (1 / 10 ^ 20) = Fin a
        \<and> validateInputs (Fin a) (Fin 100000) (Fin 30) (Fin 0) = None
        \<and> monthlyPayment (calculateMortgage (Fin 100000) (Fin a) (Fin 30)) = PosInfinity
        \<and> (\<exists>m. monthlyPayment (computePayment 100000 a 30) = Fin m \<and> 0 < m \<and> m < 100000))
   \<and> validateInputs (Fin (1200 / 2 ^ 60)) (Fin 100000) (Fin 30) (Fin 0) = None
   \<and> monthlyPayment (calculateMortgage (Fin 100000) (Fin (1200 / 2 ^ 60)) (Fin 30)) = PosInfinity
   \<and> (\<exists>m. monthlyPayment (computePayment 100000 (1200 / 2 ^ 60) 30) = Fin m \<and> 0 < m \<and> m < 100000)
   \<and> validateInputs (Fin 75) (Fin 100000) (Fin 1024) (Fin 0) = None
   \<and> monthlyPayment (calculateMortgage (Fin 100000) (Fin 75) (Fin 1024)) = NaN
   \<and> (\<exists>m. monthlyPayment (computePayment 100000 75 1024) = Fin m \<and> 0 < m \<and> m < 100000)
   \<and> validateInputs (Fin (1 / 2 ^ 40)) (Fin 100000) (Fin 30) (Fin 0) = None
   \<and> (\<exists>m. monthlyPayment (calculateMortgage (Fin 100000) (Fin (1 / 2 ^ 40)) (Fin 30)) = Fin m
        \<and> 312 \<le> m)
   \<and> (\<exists>m. monthlyPayment (computePayment 100000 (1 / 2 ^ 40) 30) = Fin m \<and> m \<le> 279)"
proof -
  have s: "\<exists>m. monthlyPayment (calculateMortgage (Fin 100000) (Fin (1 / 2 ^ 40)) (Fin 30))
      = Fin m \<and> 312 \<le> m"
    using small_rate_engine by metis
  have s': "\<exists>m. monthlyPayment (computePayment 100000 (1 / 2 ^ 40) 30) = Fin m \<and> m \<le> 279"
    using small_rate_formula by metis
  have a: "\<exists>m. monthlyPayment (computePayment 100000 (1200 / 2 ^ 60) 30) = Fin m
      \<and> 0 < m \<and> m < 100000"
    using formula_payment_bounds[of "1 / 2 ^ 60" 360 100000]
    by (simp add: computePayment_def Let_def)
  have b: "\<exists>m. monthlyPayment (computePayment 100000 75 1024) = Fin m \<and> 0 < m \<and> m < 100000"
    using formula_payment_bounds[of "1 / 16" 12288 100000]
    by (simp add: computePayment_def Let_def)
  have c: "\<exists>m. monthlyPayment (computePayment 100000 100 800) = Fin m \<and> 0 < m \<and> m < 100000"
    using formula_payment_bounds[of "1 / 12" 9600 100000]
    by (simp add: computePayment_def Let_def)
  have c': "monthlyPayment (calculateMortgage (Fin 100000) (Fin 100) (Fin 800)) = NaN"
    by (simp only: century_rate_engine mortgage_result.simps)
  have d: "\<exists>a. round_double (1 / 10 ^ 20) = Fin a
        \<and> validateInputs (Fin a) (Fin 100000) (Fin 30) (Fin 0) = None
        \<and> monthlyPayment (calculateMortgage (Fin 100000) (Fin a) (Fin 30)) = PosInfinity
        \<and> (\<exists>m. monthlyPayment (computePayment 100000 a 30) = Fin m \<and> 0 < m \<and> m < 100000)"
  proof -
    obtain a where a: "round_double (1 / 10 ^ 20) = Fin a" "0 < a" "a < 1"
      "validateInputs (Fin a) (Fin 100000) (Fin 30) (Fin 0) = None"
      "calculateMortgage (Fin 100000) (Fin a) (Fin 30)
       = \<lparr>monthlyPayment = PosInfinity, totalInterest = PosInfinity,
          totalAmount = PosInfinity\<rparr>"
      by (rule decimal_tiny_rate_engine)
    have m: "monthlyPayment (calculateMortgage (Fin 100000) (Fin a) (Fin 30)) = PosInfinity"
      by (simp only: a(5) mortgage_result.simps)
    have f: "\<exists>m. monthlyPayment (computePayment 100000 a 30) = Fin m \<and> 0 < m \<and> m < 100000"
      using formula_payment_bounds[of "a / 100 / 12" 360 100000] a(2,3)
      by (simp add: computePayment_def Let_def)
    from a(1,4) m f show ?thesis by blast
  qed
  have a': "monthlyPayment (calculateMortgage (Fin 100000) (Fin (1200 / 2 ^ 60)) (Fin 30))
      = PosInfinity"
    by (simp only: tiny_rate_engine mortgage_result.simps)
  have b': "monthlyPayment (calculateMortgage (Fin 100000) (Fin 75) (Fin 1024)) = NaN"
    by (simp only: overflow_engine mortgage_result.simps)
  from century_rate_valid c' c d tiny_rate_valid a' a overflow_valid b' b
    small_rate_valid s s'
  show ?thesis by (intro conjI)
qed

text \<open>
  C8, the engine's results on validated inputs, on the code. The inputs 100 percent, 100000
  and 800 years pass validation, and all three fields of the result are \<open>NaN\<close>; so they
  are at 75 percent over 1024 years. The rate \<open>1e-20\<close> on 100000 over 30 years passes
  validation, and all three fields are \<open>Infinity\<close>. So they are at the rate of
  \<open>1200 \<times> 2^-60\<close> percent: its monthly rate is not zero, the formula branch runs, and its
  denominator \<open>(1+r)^n - 1\<close> is zero.
\<close>

theorem engine_not_finite_on_validated_inputs:
  "validateInputs (Fin 100) (Fin 100000) (Fin 800) (Fin 0) = None
   \<and> calculateMortgage (Fin 100000) (Fin 100) (Fin 800)
       = \<lparr>monthlyPayment = NaN, totalInterest = NaN, totalAmount = NaN\<rparr>
   \<and> (\<exists>a. round_double (1 / 10 ^ 20) = Fin a
        \<and> validateInputs (Fin a) (Fin 100000) (Fin 30) (Fin 0) = None
        \<and> calculateMortgage (Fin 100000) (Fin a) (Fin 30)
            = \<lparr>monthlyPayment = PosInfinity, totalInterest = PosInfinity,
               totalAmount = PosInfinity\<rparr>)
   \<and> validateInputs (Fin (1200 / 2 ^ 60)) (Fin 100000) (Fin 30) (Fin 0) = None
   \<and> js_div (js_div (Fin (1200 / 2 ^ 60)) (Fin 100)) (Fin 12) = Fin (1 / 2 ^ 60)
   \<and> Fin (1 / 2 ^ 60) \<noteq> Fin 0
   \<and> js_add (Fin 1) (Fin (1 / 2 ^ 60)) = Fin 1
   \<and> js_sub (Math_pow (Fin 1) (js_mul (Fin 30) (Fin 12))) (Fin 1) = Fin 0
   \<and> calculateMortgage (Fin 100000) (Fin (1200 / 2 ^ 60)) (Fin 30)
       = \<lparr>monthlyPayment = PosInfinity, totalInterest = PosInfinity,
          totalAmount = PosInfinity\<rparr>
   \<and> validateInputs (Fin 75) (Fin 100000) (Fin 1024) (Fin 0) = None
   \<and> calculateMortgage (Fin 100000) (Fin 75) (Fin 1024)
       = \<lparr>monthlyPayment = NaN, totalInterest = NaN, totalAmount = NaN\<rparr>"
proof -
  have b: "js_add (Fin 1) (Fin (1 / 2 ^ 60)) = Fin 1"
    using round_one_plus_tiny by simp
  have d: "js_sub (Math_pow (Fin 1) (js_mul (Fin 30) (Fin 12))) (Fin 1) = Fin 0"
    by (simp add: js_sub_def round_double_0 round_double_1 round_double_numeral)
  have z: "Fin (1 / 2 ^ 60) \<noteq> Fin 0" by simp
  have e: "\<exists>a. round_double (1 / 10 ^ 20) = Fin a
        \<and> validateInputs (Fin a) (Fin 100000) (Fin 30) (Fin 0) = None
        \<and> calculateMortgage (Fin 100000) (Fin a) (Fin 30)
            = \<lparr>monthlyPayment = PosInfinity, totalInterest = PosInfinity,
               totalAmount = PosInfinity\<rparr>"
  proof -
    obtain a where "round_double (1 / 10 ^ 20) = Fin a" "0 < a" "a < 1"
      "validateInputs (Fin a) (Fin 100000) (Fin 30) (Fin 0) = None"
      "calculateMortgage (Fin 100000) (Fin a) (Fin 30)
       = \<lparr>monthlyPayment = PosInfinity, totalInterest = PosInfinity,
          totalAmount = PosInfinity\<rparr>"
      by (rule decimal_tiny_rate_engine)
    then show ?thesis by blast
  qed
  from century_rate_valid century_rate_engine e
    tiny_rate_valid tiny_rate z b d tiny_rate_engine overflow_valid overflow_engine
  show ?thesis by (intro conjI)
qed

section \<open>Validation\<close>

text \<open>
  Where no input is \<open>Infinity\<close>, \<open>validateInputs\<close> returns the message of the first of
  the five checks that fails, in the specification's order, and \<open>null\<close> when none fails.
\<close>

lemma fails_RateNonNegative:
  "i \<noteq> PosInfinity \<Longrightarrow>
     (isNaN i \<or> js_less i (Fin 0)) = (\<not> check_passes RateNonNegative i p t f)"
  by (cases i) (auto simp: isNaN_def)

lemma fails_PrincipalPositive:
  "p \<noteq> PosInfinity \<Longrightarrow>
     (isNaN p \<or> js_less_eq p (Fin 0)) = (\<not> check_passes PrincipalPositive i p t f)"
  by (cases p) (auto simp: isNaN_def)

lemma fails_TermPositiveInteger:
  "(isNaN t \<or> js_less_eq t (Fin 0) \<or> \<not> Number_isInteger t)
     = (\<not> check_passes TermPositiveInteger i p t f)"
  by (cases t) (auto simp: isNaN_def)

lemma fails_RateCeiling:
  "check_passes RateNonNegative i p t f \<Longrightarrow>
     js_greater i (Fin 100) = (\<not> check_passes RateCeiling i p t f)"
  by (cases i) (auto simp: js_greater_def)

lemma fails_FeesNonNegative:
  "f \<noteq> PosInfinity \<Longrightarrow>
     (isNaN f \<or> js_less f (Fin 0)) = (\<not> check_passes FeesNonNegative i p t f)"
  by (cases f) (auto simp: isNaN_def)

lemma validateInputs_validate:
  assumes "i \<noteq> PosInfinity" "p \<noteq> PosInfinity" "f \<noteq> PosInfinity"
  shows "validateInputs i p t f = map_option message (validate i p t f)"
proof (cases "check_passes RateNonNegative i p t f")
  case False
  then show ?thesis
    unfolding validateInputs_def validate_def check_order_def
      fails_RateNonNegative[OF assms(1), of p t f] by simp
next
  case True
  then show ?thesis
    unfolding validateInputs_def validate_def check_order_def
      fails_RateNonNegative[OF assms(1), of p t f] fails_PrincipalPositive[OF assms(2), of i t f]
      fails_TermPositiveInteger[of t i p f] fails_FeesNonNegative[OF assms(3), of i p t]
      fails_RateCeiling[OF True]
    by simp
qed

lemma inj_message: "inj message"
proof (rule injI)
  fix a b
  assume "message a = message b"
  then show "a = b" by (cases a; cases b) simp_all
qed

lemma validate_None_iff:
  "validate i p t f = None \<longleftrightarrow> (\<forall>c. check_passes c i p t f)"
proof -
  have "set check_order = UNIV"
    using validation_check.exhaust by (auto simp: check_order_def)
  then show ?thesis by (auto simp: validate_def find_None_iff)
qed

text \<open>
  C2, the five checks of \<open>validate\<close>, on the code. The code tests \<open>isNaN\<close>, which
  \<open>Infinity\<close> passes. A principal of \<open>Infinity\<close>, which is no real number, fails check 2
  of the claim, and fees of \<open>Infinity\<close> fail check 5, but \<open>validateInputs\<close> returns
  \<open>null\<close> for both; an interest rate of \<open>Infinity\<close> fails check 1, but the message
  returned is that of check 4, "too high".
\<close>

theorem validateInputs_admits_Infinity:
  "validateInputs (Fin 5) PosInfinity (Fin 30) (Fin 0) = None
   \<and> validate (Fin 5) PosInfinity (Fin 30) (Fin 0) = Some PrincipalPositive
   \<and> validateInputs (Fin 5) (Fin 100000) (Fin 30) PosInfinity = None
   \<and> validate (Fin 5) (Fin 100000) (Fin 30) PosInfinity = Some FeesNonNegative
   \<and> validateInputs PosInfinity (Fin 100000) (Fin 30) (Fin 0) = Some (message RateCeiling)
   \<and> validate PosInfinity (Fin 100000) (Fin 30) (Fin 0) = Some RateNonNegative"
  by (simp add: validateInputs_def validate_def check_order_def isNaN_def js_greater_def)

section \<open>The handlers\<close>

lemma handleCalculate_valid:
  assumes "validateInputs i p t f = None"
  shows "displayedResults (handleCalculate i p t f s)
           = Some (applyFees (calculateMortgage p i t) f (js_mul t (Fin 12)))"
    and "dataset_inputs (handleCalculate i p t f s)
           = Some (JSON_stringify \<lparr>inputs_interestRate = i, inputs_loanAmount = p,
                     inputs_loanDuration = t, inputs_lotFees = f\<rparr>)"
    and "comparisonMortgages (handleCalculate i p t f s) = comparisonMortgages s"
  using assms
  by (simp_all add: handleCalculate_def displayResults_def hideError_def applyFees_def Let_def)

lemma handleCalculate_invalid:
  assumes "validateInputs i p t f = Some e"
  shows "dataset_inputs (handleCalculate i p t f s) = dataset_inputs s"
    and "comparisonMortgages (handleCalculate i p t f s) = comparisonMortgages s"
  using assms by (simp_all add: handleCalculate_def showError_def hideError_def)

lemma addToComparison_stored:
  assumes "dataset_inputs s = Some inputs"
  shows "comparisonMortgages (addToComparison now s) = comparisonMortgages s @
     [\<lparr>entry_id = now,
       entry_interestRate = stored_interestRate inputs,
       entry_loanAmount = stored_loanAmount inputs,
       entry_loanDuration = stored_loanDuration inputs,
       entry_lotFees = or_zero (stored_lotFees inputs),
       entry_monthlyPayment = monthlyPayment (applyFees
          (calculateMortgage (ToNumber (stored_loanAmount inputs))
             (ToNumber (stored_interestRate inputs)) (ToNumber (stored_loanDuration inputs)))
          (or_zero (stored_lotFees inputs))
          (js_mul (ToNumber (stored_loanDuration inputs)) (Fin 12))),
       entry_totalInterest = totalInterest (applyFees
          (calculateMortgage (ToNumber (stored_loanAmount inputs))
             (ToNumber (stored_interestRate inputs)) (ToNumber (stored_loanDuration inputs)))
          (or_zero (stored_lotFees inputs))
          (js_mul (ToNumber (stored_loanDuration inputs)) (Fin 12))),
       entry_totalAmount = totalAmount (applyFees
          (calculateMortgage (ToNumber (stored_loanAmount inputs))
             (ToNumber (stored_interestRate inputs)) (ToNumber (stored_loanDuration inputs)))
          (or_zero (stored_lotFees inputs))
          (js_mul (ToNumber (stored_loanDuration inputs)) (Fin 12)))\<rparr>]"
  using assms by (simp add: addToComparison_def hideError_def applyFees_def Let_def)

lemma addToComparison_ids:
  assumes "dataset_inputs s = Some inputs"
  shows "map entry_id (comparisonMortgages (addToComparison now s))
           = map entry_id (comparisonMortgages s) @ [now]"
    and "dataset_inputs (addToComparison now s) = Some inputs"
  using assms by (simp_all add: addToComparison_def hideError_def Let_def)

lemma addToComparison_no_inputs:
  assumes "dataset_inputs s = None"
  shows "addToComparison now s
           = showError ''Please calculate a mortgage first before adding to comparison'' s"
    and "comparisonMortgages (addToComparison now s) = comparisonMortgages s"
    and "errorMessage (addToComparison now s)
           = ''Please calculate a mortgage first before adding to comparison''"
    and "errorVisible (addToComparison now s)"
    and "dataset_inputs (addToComparison now s) = None"
  using assms by (simp_all add: addToComparison_def showError_def)

lemma removeFromComparison_inputs:
  "dataset_inputs (removeFromComparison id' s) = dataset_inputs s"
  by (simp add: removeFromComparison_def)

lemma removeFromComparison_ids:
  "map entry_id (comparisonMortgages (removeFromComparison id' s))
     = filter (\<lambda>i. i \<noteq> id') (map entry_id (comparisonMortgages s))"
  by (simp add: removeFromComparison_def filter_map comp_def)

text \<open>The example page and the engine's result for its inputs.\<close>

lemma example_valid: "validateInputs (Fin 0) (Fin 1200) (Fin 1) (Fin 50) = None"
  by (simp add: validateInputs_def isNaN_def js_greater_def)

lemma example_page_inputs:
  "dataset_inputs example_page =
     Some \<lparr>stored_interestRate = Number (Fin 0), stored_loanAmount = Number (Fin 1200),
           stored_loanDuration = Number (Fin 1), stored_lotFees = Number (Fin 50)\<rparr>"
  by (simp add: example_page_def handleCalculate_valid(2)[OF example_valid] JSON_stringify_def)

lemma example_page_store: "comparisonMortgages example_page = []"
  by (simp add: example_page_def handleCalculate_valid(3)[OF example_valid] initial_page_def)

lemma example_engine:
  "calculateMortgage (Fin 1200) (Fin 0) (Fin 1)
     = \<lparr>monthlyPayment = Fin 100, totalInterest = Fin 0, totalAmount = Fin 1200\<rparr>"
  by (simp add: calculateMortgage_def Let_def js_sub_def round_double_0 round_double_numeral)

section \<open>Fees\<close>

text \<open>
  C3. On both paths the fees transform the engine's result as \<open>applyFees\<close> says: the new
  monthly payment is the old one plus the fees, the interest is the engine's, unchanged,
  and the new total is the new monthly payment times the payment count, twelve times the
  term. On the calculate path this is what a valid calculation displays; on the
  add-to-comparison path it is what the appended entry holds, for the inputs and fees read
  back from the stored JSON.
\<close>

theorem fees_applied_on_both_paths:
  "(validateInputs i p t f = None \<longrightarrow>
      displayedResults (handleCalculate i p t f s)
        = Some (applyFees (calculateMortgage p i t) f (js_mul t (Fin 12))))
   \<and> (dataset_inputs s' = Some inputs \<longrightarrow>
      entry_result (last (comparisonMortgages (addToComparison now s')))
        = applyFees
            (calculateMortgage (ToNumber (stored_loanAmount inputs))
               (ToNumber (stored_interestRate inputs)) (ToNumber (stored_loanDuration inputs)))
            (or_zero (stored_lotFees inputs))
            (js_mul (ToNumber (stored_loanDuration inputs)) (Fin 12)))"
  by (simp add: handleCalculate_valid(1) addToComparison_stored entry_result_def applyFees_def)

theorem fees_applied_on_both_paths_witness:
  "validateInputs (Fin 0) (Fin 1200) (Fin 1) (Fin 50) = None
   \<and> displayedResults (handleCalculate (Fin 0) (Fin 1200) (Fin 1) (Fin 50) initial_page)
       = Some \<lparr>monthlyPayment = Fin 150, totalInterest = Fin 0, totalAmount = Fin 1800\<rparr>
   \<and> dataset_inputs example_page =
       Some \<lparr>stored_interestRate = Number (Fin 0), stored_loanAmount = Number (Fin 1200),
             stored_loanDuration = Number (Fin 1), stored_lotFees = Number (Fin 50)\<rparr>
   \<and> entry_result (last (comparisonMortgages (addToComparison 1700000000000 example_page)))
       = \<lparr>monthlyPayment = Fin 150, totalInterest = Fin 0, totalAmount = Fin 1800\<rparr>"
  using fees_applied_on_both_paths[where i = "Fin 0" and p = "Fin 1200" and t = "Fin 1"
      and f = "Fin 50" and s = initial_page and s' = example_page and now = 1700000000000]
  by (simp add: example_valid example_page_inputs example_engine applyFees_def
      round_double_numeral)

text \<open>
  The claim C5, that the delivered result has total minus interest equal to the principal
  within floating-point tolerance, fails. With monthly fees of 50 on 1200 at 0 percent over
  one year the page shows a total of 1800 and an interest of 0: the difference is 1800,
  which is 600 away from the principal of 1200.
\<close>

theorem delivered_total_minus_interest_counterexample:
  "validateInputs (Fin 0) (Fin 1200) (Fin 1) (Fin 50) = None
   \<and> displayedResults (handleCalculate (Fin 0) (Fin 1200) (Fin 1) (Fin 50) initial_page)
       = Some \<lparr>monthlyPayment = Fin 150, totalInterest = Fin 0, totalAmount = Fin 1800\<rparr>
   \<and> js_sub (Fin 1800) (Fin 0) = Fin 1800
   \<and> Fin 1800 \<noteq> Fin 1200
   \<and> \<bar>1800 - 0 - 1200\<bar> = (600::real)"
  by (simp add: handleCalculate_valid(1)[OF example_valid] example_valid example_engine
      applyFees_def js_sub_def round_double_numeral)

text \<open>
  The rounding errors of the four operations between the delivered total and the interest:
  each is at most \<open>2^-53\<close> of its exact result plus \<open>2^-1075\<close>.
\<close>

lemma four_roundings:
  fixes m N F P M T0 T I :: real
  assumes e3: "\<bar>M - (m + F)\<bar> \<le> \<bar>m + F\<bar> / 2 ^ 53 + 1 / 2 ^ 1075"
    and e4: "\<bar>T - M * N\<bar> \<le> \<bar>M * N\<bar> / 2 ^ 53 + 1 / 2 ^ 1075"
    and e1: "\<bar>T0 - m * N\<bar> \<le> \<bar>m * N\<bar> / 2 ^ 53 + 1 / 2 ^ 1075"
    and e2: "\<bar>I - (T0 - P)\<bar> \<le> \<bar>T0 - P\<bar> / 2 ^ 53 + 1 / 2 ^ 1075"
  shows "\<bar>T - I - (P + F * N)\<bar>
     \<le> (\<bar>m + F\<bar> * \<bar>N\<bar> + \<bar>M * N\<bar> + \<bar>m * N\<bar> + \<bar>T0 - P\<bar>) / 2 ^ 53
       + (\<bar>N\<bar> + 3) / 2 ^ 1075"
proof -
  have split: "T - I - (P + F * N)
      = (T - M * N) - (I - (T0 - P)) - (T0 - m * N) + (M - (m + F)) * N"
    by (simp add: algebra_simps)
  have "\<bar>(M - (m + F)) * N\<bar> \<le> (\<bar>m + F\<bar> / 2 ^ 53 + 1 / 2 ^ 1075) * \<bar>N\<bar>"
    unfolding abs_mult using e3 by (intro mult_right_mono) simp_all
  then have d: "\<bar>(M - (m + F)) * N\<bar> \<le> \<bar>m + F\<bar> * \<bar>N\<bar> / 2 ^ 53 + \<bar>N\<bar> / 2 ^ 1075"
    by (simp add: algebra_simps)
  have "\<bar>T - I - (P + F * N)\<bar>
      \<le> \<bar>T - M * N\<bar> + \<bar>I - (T0 - P)\<bar> + \<bar>T0 - m * N\<bar> + \<bar>(M - (m + F)) * N\<bar>"
    unfolding split by linarith
  also have "\<dots> \<le> (\<bar>M * N\<bar> / 2 ^ 53 + 1 / 2 ^ 1075) + (\<bar>T0 - P\<bar> / 2 ^ 53 + 1 / 2 ^ 1075)
      + (\<bar>m * N\<bar> / 2 ^ 53 + 1 / 2 ^ 1075) + (\<bar>m + F\<bar> * \<bar>N\<bar> / 2 ^ 53 + \<bar>N\<bar> / 2 ^ 1075)"
    using e4 e2 e1 d by linarith
  also have "\<dots> = (\<bar>m + F\<bar> * \<bar>N\<bar> + \<bar>M * N\<bar> + \<bar>m * N\<bar> + \<bar>T0 - P\<bar>) / 2 ^ 53
      + (\<bar>N\<bar> + 3) / 2 ^ 1075"
    by (simp add: add_divide_distrib)
  finally show ?thesis .
qed

text \<open>
  C5, amended. For all inputs that pass validation, the delivered result has total minus
  interest equal to the principal plus the fees times the payment count, within
  floating-point tolerance, wherever its numbers are finite: the difference is at most the
  rounding errors of the four operations between them. The fees are in the total and not
  in the interest. The interest is the engine's: the engine's total, the monthly payment
  before fees times the payment count, minus the principal, in the code's arithmetic, so
  that the engine's total minus the interest is the principal up to one rounding. The
  delivered total is the monthly payment with the fees times the payment count; it is the
  engine's total when the fees are 0.
\<close>

theorem delivered_total_minus_interest:
  assumes "validateInputs i p t f = None"
  shows "\<exists>r. displayedResults (handleCalculate i p t f s) = Some r
     \<and> totalInterest r = js_sub (totalAmount (calculateMortgage p i t)) p
     \<and> totalAmount (calculateMortgage p i t)
         = js_mul (monthlyPayment (calculateMortgage p i t)) (js_mul t (Fin 12))
     \<and> monthlyPayment r = js_add (monthlyPayment (calculateMortgage p i t)) f
     \<and> totalAmount r = js_mul (monthlyPayment r) (js_mul t (Fin 12))
     \<and> (f = Fin 0 \<longrightarrow> totalAmount r = totalAmount (calculateMortgage p i t))
     \<and> (\<forall>T0 I P. totalAmount (calculateMortgage p i t) = Fin T0 \<and> totalInterest r = Fin I
            \<and> p = Fin P \<longrightarrow>
          \<bar>T0 - I - P\<bar> \<le> \<bar>T0 - P\<bar> / 2 ^ 53 + 1 / 2 ^ 1075)
     \<and> (\<forall>m N F P M T0 T I.
            monthlyPayment (calculateMortgage p i t) = Fin m \<and> js_mul t (Fin 12) = Fin N
            \<and> f = Fin F \<and> p = Fin P \<and> monthlyPayment r = Fin M
            \<and> totalAmount (calculateMortgage p i t) = Fin T0
            \<and> totalAmount r = Fin T \<and> totalInterest r = Fin I \<longrightarrow>
          \<bar>T - I - (P + F * N)\<bar>
            \<le> (\<bar>m + F\<bar> * \<bar>N\<bar> + \<bar>M * N\<bar> + \<bar>m * N\<bar> + \<bar>T0 - P\<bar>) / 2 ^ 53
              + (\<bar>N\<bar> + 3) / 2 ^ 1075)"
proof -
  let ?e = "calculateMortgage p i t"
  let ?n = "js_mul t (Fin 12)"
  let ?r = "applyFees ?e f ?n"
  have d: "displayedResults (handleCalculate i p t f s) = Some ?r"
    by (rule handleCalculate_valid(1)[OF assms])
  have ti: "totalInterest ?r = js_sub (totalAmount ?e) p"
    by (simp add: applyFees_def calculateMortgage_def Let_def)
  have te: "totalAmount ?e = js_mul (monthlyPayment ?e) ?n"
    by (simp add: calculateMortgage_def Let_def)
  have mr: "monthlyPayment ?r = js_add (monthlyPayment ?e) f"
    by (simp add: applyFees_def)
  have ta: "totalAmount ?r = js_mul (monthlyPayment ?r) ?n"
    by (simp add: applyFees_def)
  have m0: "js_add (monthlyPayment ?e) (Fin 0) = monthlyPayment ?e"
    by (simp add: calculateMortgage_def Let_def js_add_js_div_zero)
  have z: "f = Fin 0 \<longrightarrow> totalAmount ?r = totalAmount ?e"
    unfolding ta mr te using m0 by simp
  have one: "\<bar>T0 - I - P\<bar> \<le> \<bar>T0 - P\<bar> / 2 ^ 53 + 1 / 2 ^ 1075"
    if T: "totalAmount ?e = Fin T0" and I: "totalInterest ?r = Fin I" and P: "p = Fin P"
    for T0 I P
  proof -
    from I have "js_sub (totalAmount ?e) p = Fin I" by (simp only: ti)
    then have "js_sub (Fin T0) p = Fin I" by (simp only: T)
    then have "js_sub (Fin T0) (Fin P) = Fin I" by (simp only: P)
    then have "round_double (T0 - P) = Fin I" by (simp add: js_sub_def)
    from round_double_error[OF this] show ?thesis
      by (simp add: abs_minus_commute algebra_simps)
  qed
  have four: "\<bar>T - I - (P + F * N)\<bar>
            \<le> (\<bar>m + F\<bar> * \<bar>N\<bar> + \<bar>M * N\<bar> + \<bar>m * N\<bar> + \<bar>T0 - P\<bar>) / 2 ^ 53
              + (\<bar>N\<bar> + 3) / 2 ^ 1075"
    if m: "monthlyPayment ?e = Fin m" and N: "?n = Fin N" and F: "f = Fin F" and P: "p = Fin P"
      and M: "monthlyPayment ?r = Fin M" and T0: "totalAmount ?e = Fin T0"
      and T: "totalAmount ?r = Fin T" and I: "totalInterest ?r = Fin I"
    for m N F P M T0 T I
  proof -
    from M have "js_add (monthlyPayment ?e) f = Fin M" by (simp only: mr)
    then have "js_add (Fin m) f = Fin M" by (simp only: m)
    then have "js_add (Fin m) (Fin F) = Fin M" by (simp only: F)
    then have "round_double (m + F) = Fin M" by simp
    note e3 = round_double_error[OF this]
    from T have "js_mul (monthlyPayment ?r) ?n = Fin T" by (simp only: ta)
    then have "js_mul (Fin M) ?n = Fin T" by (simp only: M)
    then have "js_mul (Fin M) (Fin N) = Fin T" by (simp only: N)
    then have "round_double (M * N) = Fin T" by simp
    note e4 = round_double_error[OF this]
    from T0 have "js_mul (monthlyPayment ?e) ?n = Fin T0" by (simp only: te)
    then have "js_mul (Fin m) ?n = Fin T0" by (simp only: m)
    then have "js_mul (Fin m) (Fin N) = Fin T0" by (simp only: N)
    then have "round_double (m * N) = Fin T0" by simp
    note e1 = round_double_error[OF this]
    from I have "js_sub (totalAmount ?e) p = Fin I" by (simp only: ti)
    then have "js_sub (Fin T0) p = Fin I" by (simp only: T0)
    then have "js_sub (Fin T0) (Fin P) = Fin I" by (simp only: P)
    then have "round_double (T0 - P) = Fin I" by (simp add: js_sub_def)
    note e2 = round_double_error[OF this]
    from e3 e4 e1 e2 show ?thesis by (rule four_roundings)
  qed
  from d ti te mr ta z one four show ?thesis by blast
qed

theorem delivered_total_minus_interest_witness:
  "validateInputs (Fin 0) (Fin 1200) (Fin 1) (Fin 50) = None
   \<and> (\<exists>r. displayedResults (handleCalculate (Fin 0) (Fin 1200) (Fin 1) (Fin 50) initial_page)
            = Some r
        \<and> monthlyPayment r = Fin 150 \<and> totalInterest r = Fin 0 \<and> totalAmount r = Fin 1800)
   \<and> calculateMortgage (Fin 1200) (Fin 0) (Fin 1)
       = \<lparr>monthlyPayment = Fin 100, totalInterest = Fin 0, totalAmount = Fin 1200\<rparr>
   \<and> \<bar>1800 - 0 - (1200 + 50 * 12)\<bar>
       \<le> (\<bar>100 + 50\<bar> * \<bar>12\<bar> + \<bar>150 * 12\<bar> + \<bar>100 * 12\<bar> + \<bar>1200 - 1200\<bar>) / 2 ^ 53
         + (\<bar>12\<bar> + 3) / (2 ^ 1075 :: real)"
proof -
  have n: "js_mul (Fin 1) (Fin 12) = Fin 12" by (simp add: round_double_numeral)
  from delivered_total_minus_interest[OF example_valid, of initial_page]
  obtain r where r:
    "displayedResults (handleCalculate (Fin 0) (Fin 1200) (Fin 1) (Fin 50) initial_page)
       = Some r"
    "totalInterest r = js_sub (totalAmount (calculateMortgage (Fin 1200) (Fin 0) (Fin 1)))
       (Fin 1200)"
    "monthlyPayment r = js_add (monthlyPayment (calculateMortgage (Fin 1200) (Fin 0) (Fin 1)))
       (Fin 50)"
    "totalAmount r = js_mul (monthlyPayment r) (js_mul (Fin 1) (Fin 12))"
    and tol: "\<forall>m N F P M T0 T I.
            monthlyPayment (calculateMortgage (Fin 1200) (Fin 0) (Fin 1)) = Fin m
            \<and> js_mul (Fin 1) (Fin 12) = Fin N
            \<and> Fin 50 = Fin F \<and> Fin 1200 = Fin P \<and> monthlyPayment r = Fin M
            \<and> totalAmount (calculateMortgage (Fin 1200) (Fin 0) (Fin 1)) = Fin T0
            \<and> totalAmount r = Fin T \<and> totalInterest r = Fin I \<longrightarrow>
          \<bar>T - I - (P + F * N)\<bar>
            \<le> (\<bar>m + F\<bar> * \<bar>N\<bar> + \<bar>M * N\<bar> + \<bar>m * N\<bar> + \<bar>T0 - P\<bar>) / 2 ^ 53
              + (\<bar>N\<bar> + 3) / 2 ^ 1075"
    by blast
  have m: "monthlyPayment r = Fin 150"
    unfolding r(3) example_engine by (simp add: round_double_numeral)
  have t: "totalAmount r = Fin 1800"
    unfolding r(4) m n by (simp add: round_double_numeral)
  have i: "totalInterest r = Fin 0"
    unfolding r(2) example_engine by (simp add: js_sub_def round_double_0)
  have "\<bar>1800 - 0 - (1200 + 50 * 12)\<bar>
       \<le> (\<bar>100 + 50\<bar> * \<bar>12\<bar> + \<bar>150 * 12\<bar> + \<bar>100 * 12\<bar> + \<bar>1200 - 1200\<bar>) / 2 ^ 53
         + (\<bar>12\<bar> + 3) / (2 ^ 1075 :: real)"
    using tol[rule_format, of 100 12 50 1200 150 1200 1800 0] m t i n
    by (simp only: example_engine mortgage_result.simps simp_thms)
  with example_valid r(1) m t i example_engine show ?thesis by blast
qed

section \<open>The comparison store\<close>

text \<open>
  C6. In every state that holds the inputs of a calculation, \<open>addToComparison\<close> appends
  one entry at the end of the list and leaves the entries before it as they were, in their
  order. The entry holds the stored inputs, and its three amounts are the engine's result
  for those inputs with the fees applied: they are computed anew from the inputs, and the
  amounts the page displays have no part in them.
\<close>

theorem addToComparison_recomputes_and_appends:
  assumes "dataset_inputs s = Some inputs"
  shows "\<exists>entry. comparisonMortgages (addToComparison now s) = comparisonMortgages s @ [entry]
     \<and> entry_interestRate entry = stored_interestRate inputs
     \<and> entry_loanAmount entry = stored_loanAmount inputs
     \<and> entry_loanDuration entry = stored_loanDuration inputs
     \<and> entry_lotFees entry = or_zero (stored_lotFees inputs)
     \<and> entry_result entry
         = applyFees
             (calculateMortgage (ToNumber (entry_loanAmount entry))
                (ToNumber (entry_interestRate entry)) (ToNumber (entry_loanDuration entry)))
             (entry_lotFees entry)
             (js_mul (ToNumber (entry_loanDuration entry)) (Fin 12))
     \<and> comparisonMortgages (addToComparison now (s\<lparr>displayedResults := shown\<rparr>))
         = comparisonMortgages (addToComparison now s)"
  using assms
  by (simp add: addToComparison_def hideError_def applyFees_def entry_result_def Let_def)

theorem addToComparison_recomputes_and_appends_witness:
  "dataset_inputs example_page =
       Some \<lparr>stored_interestRate = Number (Fin 0), stored_loanAmount = Number (Fin 1200),
             stored_loanDuration = Number (Fin 1), stored_lotFees = Number (Fin 50)\<rparr>
   \<and> comparisonMortgages (addToComparison 1700000000000 example_page)
       = [\<lparr>entry_id = 1700000000000,
           entry_interestRate = Number (Fin 0), entry_loanAmount = Number (Fin 1200),
           entry_loanDuration = Number (Fin 1), entry_lotFees = Fin 50,
           entry_monthlyPayment = Fin 150, entry_totalInterest = Fin 0,
           entry_totalAmount = Fin 1800\<rparr>]"
  using addToComparison_recomputes_and_appends[OF example_page_inputs, of 1700000000000]
  by (simp add: example_page_inputs example_page_store addToComparison_def hideError_def
      Let_def example_engine round_double_numeral)

text \<open>
  C7. For every state and every id that no entry of the store bears,
  \<open>removeFromComparison\<close> changes nothing: the list of entries afterwards is the list
  before, element for element and in the same order, and so is the rest of the state. The
  function has no failing branch.
\<close>

theorem removeFromComparison_unknown_id:
  assumes "id' \<notin> entry_id ` set (comparisonMortgages s)"
  shows "comparisonMortgages (removeFromComparison id' s) = comparisonMortgages s
     \<and> removeFromComparison id' s = s"
proof -
  have "filter (\<lambda>entry. entry_id entry \<noteq> id') (comparisonMortgages s) = comparisonMortgages s"
    using assms by (intro filter_True) auto
  then show ?thesis by (simp add: removeFromComparison_def)
qed

theorem removeFromComparison_unknown_id_witness:
  "(42::int) \<notin> entry_id ` set (comparisonMortgages (addToComparison 1700000000000 example_page))
   \<and> length (comparisonMortgages (addToComparison 1700000000000 example_page)) = 1
   \<and> removeFromComparison 42 (addToComparison 1700000000000 example_page)
       = addToComparison 1700000000000 example_page"
proof -
  have m: "map entry_id (comparisonMortgages (addToComparison 1700000000000 example_page))
      = [1700000000000]"
    by (simp add: addToComparison_ids(1)[OF example_page_inputs] example_page_store)
  have s: "entry_id ` set (comparisonMortgages (addToComparison 1700000000000 example_page))
      = {1700000000000}"
    using arg_cong[OF m, of set] by simp
  have l: "length (comparisonMortgages (addToComparison 1700000000000 example_page)) = 1"
    using arg_cong[OF m, of length] by simp
  have n: "(42::int)
      \<notin> entry_id ` set (comparisonMortgages (addToComparison 1700000000000 example_page))"
    unfolding s by simp
  from removeFromComparison_unknown_id[OF n] n l show ?thesis by simp
qed

text \<open>
  C9. For every state and every id, \<open>removeFromComparison\<close> leaves exactly the entries
  whose id differs from the given one, in their original relative order. Afterwards no
  entry bears that id: where several entries bear it, one call removes them all.
\<close>

theorem removeFromComparison_removes_all:
  "comparisonMortgages (removeFromComparison id' s)
     = filter (\<lambda>entry. entry_id entry \<noteq> id') (comparisonMortgages s)
   \<and> id' \<notin> entry_id ` set (comparisonMortgages (removeFromComparison id' s))
   \<and> set (comparisonMortgages (removeFromComparison id' s))
       = {entry \<in> set (comparisonMortgages s). entry_id entry \<noteq> id'}
   \<and> subseq (comparisonMortgages (removeFromComparison id' s)) (comparisonMortgages s)"
  by (auto simp: removeFromComparison_def)

theorem removeFromComparison_removes_all_witness:
  "map entry_id (comparisonMortgages (removeFromComparison 1700000000000
      (addToComparison 1700000000001 (addToComparison 1700000000000 example_page))))
     = [1700000000001]
   \<and> comparisonMortgages (removeFromComparison 1700000000000
      (addToComparison 1700000000000 (addToComparison 1700000000000 example_page))) = []"
proof -
  note i = example_page_inputs
  note i1 = addToComparison_ids(2)[OF i, of 1700000000000]
  have a: "map entry_id (comparisonMortgages
      (addToComparison 1700000000001 (addToComparison 1700000000000 example_page)))
      = [1700000000000, 1700000000001]"
    by (simp add: addToComparison_ids(1)[OF i1] addToComparison_ids(1)[OF i] example_page_store)
  have b: "map entry_id (comparisonMortgages
      (addToComparison 1700000000000 (addToComparison 1700000000000 example_page)))
      = [1700000000000, 1700000000000]"
    by (simp add: addToComparison_ids(1)[OF i1] addToComparison_ids(1)[OF i] example_page_store)
  have c: "map entry_id (comparisonMortgages (removeFromComparison 1700000000000
      (addToComparison 1700000000000 (addToComparison 1700000000000 example_page)))) = []"
    by (simp add: removeFromComparison_ids b)
  have d: "map entry_id (comparisonMortgages (removeFromComparison 1700000000000
      (addToComparison 1700000000001 (addToComparison 1700000000000 example_page))))
      = [1700000000001]"
    by (simp add: removeFromComparison_ids a)
  from removeFromComparison_removes_all[of 1700000000000
      "addToComparison 1700000000001 (addToComparison 1700000000000 example_page)"]
    c d show ?thesis by blast
qed

text \<open>
  Until a calculation succeeds the page holds no inputs: a failed calculation, an add and a
  remove leave \<open>dataset.inputs\<close> unset.
\<close>

lemma dispatch_keeps_no_inputs:
  assumes "\<not> successful_calculation ev" "dataset_inputs s = None"
  shows "dataset_inputs (dispatch ev s) = None"
proof (cases ev)
  case (ClickCalculate i p t f)
  with assms obtain e where "validateInputs i p t f = Some e" by auto
  with ClickCalculate assms show ?thesis by (simp add: handleCalculate_invalid)
next
  case (ClickAddToComparison now)
  with assms show ?thesis by (simp add: addToComparison_no_inputs(5))
next
  case (ClickRemove i)
  with assms show ?thesis by (simp add: removeFromComparison_inputs)
qed

lemma run_keeps_no_inputs:
  assumes "list_all (\<lambda>ev. \<not> successful_calculation ev) events" "dataset_inputs s = None"
  shows "dataset_inputs (run events s) = None"
  using assms unfolding run_def
  by (induction events arbitrary: s) (simp_all add: dispatch_keeps_no_inputs)

text \<open>
  C10. When the page holds no stored inputs, \<open>addToComparison\<close> shows the error "Please
  calculate a mortgage first before adding to comparison" and does nothing else: the
  comparison store is unchanged and no entry is appended. That is the state of the page for
  as long as no calculation has succeeded since it was loaded.
\<close>

theorem addToComparison_before_any_calculation:
  "(dataset_inputs s = None \<longrightarrow>
      addToComparison now s
        = showError ''Please calculate a mortgage first before adding to comparison'' s
      \<and> comparisonMortgages (addToComparison now s) = comparisonMortgages s
      \<and> errorMessage (addToComparison now s)
          = ''Please calculate a mortgage first before adding to comparison''
      \<and> errorVisible (addToComparison now s))
   \<and> (list_all (\<lambda>ev. \<not> successful_calculation ev) events \<longrightarrow>
      dataset_inputs (run events initial_page) = None)"
proof -
  have "dataset_inputs initial_page = None" by (simp add: initial_page_def)
  then show ?thesis
    using run_keeps_no_inputs[of events initial_page] addToComparison_no_inputs[of s now]
    by blast
qed

theorem addToComparison_before_any_calculation_witness:
  "list_all (\<lambda>ev. \<not> successful_calculation ev)
     [ClickCalculate (Fin 150) (Fin 100000) (Fin 30) (Fin 0), ClickAddToComparison 1700000000000]
   \<and> dataset_inputs (run [ClickCalculate (Fin 150) (Fin 100000) (Fin 30) (Fin 0),
              ClickAddToComparison 1700000000000] initial_page) = None
   \<and> comparisonMortgages (addToComparison 1700000000001
        (run [ClickCalculate (Fin 150) (Fin 100000) (Fin 30) (Fin 0),
              ClickAddToComparison 1700000000000] initial_page)) = []
   \<and> errorMessage (addToComparison 1700000000001
        (run [ClickCalculate (Fin 150) (Fin 100000) (Fin 30) (Fin 0),
              ClickAddToComparison 1700000000000] initial_page))
       = ''Please calculate a mortgage first before adding to comparison''"
proof -
  let ?events = "[ClickCalculate (Fin 150) (Fin 100000) (Fin 30) (Fin 0),
    ClickAddToComparison 1700000000000]"
  let ?s = "run ?events initial_page"
  have v: "validateInputs (Fin 150) (Fin 100000) (Fin 30) (Fin 0)
     = Some ''Interest rate seems too high. Please enter a rate between 0 and 100%''"
    by (simp add: validateInputs_def isNaN_def js_greater_def)
  have l: "list_all (\<lambda>ev. \<not> successful_calculation ev) ?events"
    by (simp add: v)
  have c: "comparisonMortgages ?s = []"
    by (simp add: run_def handleCalculate_invalid[OF v] addToComparison_no_inputs(2)
        initial_page_def)
  note T = addToComparison_before_any_calculation[where now = 1700000000001
      and s = ?s and events = ?events]
  from T l have d: "dataset_inputs ?s = None" by blast
  from T d have "comparisonMortgages (addToComparison 1700000000001 ?s) = comparisonMortgages ?s"
    and e: "errorMessage (addToComparison 1700000000001 ?s)
       = ''Please calculate a mortgage first before adding to comparison''"
    by blast+
  with c have "comparisonMortgages (addToComparison 1700000000001 ?s) = []" by simp
  with l d e show ?thesis by blast
qed

text \<open>
  An add gives a fresh id when the clock reads a value that no entry bears; nothing in the
  code makes the clock do so.
\<close>

lemma addToComparison_fresh_id:
  assumes "dataset_inputs s = Some inputs"
    and "distinct (map entry_id (comparisonMortgages s))"
    and "now \<notin> entry_id ` set (comparisonMortgages s)"
  shows "distinct (map entry_id (comparisonMortgages (addToComparison now s)))"
  using assms by (simp add: addToComparison_ids(1))

text \<open>
  C4, the uniqueness of ids, on the code: an id is the reading of \<open>Date.now()\<close> at the add.
  After one calculation, two adds at the same millisecond give two entries with the same
  id, and one click on remove then deletes both; an add at the reading of an entry removed
  before assigns the removed id again.
\<close>

theorem ids_collide_within_a_millisecond:
  "map entry_id (comparisonMortgages
      (run [ClickCalculate (Fin 0) (Fin 1200) (Fin 1) (Fin 50),
            ClickAddToComparison 1700000000000,
            ClickAddToComparison 1700000000000] initial_page))
     = [1700000000000, 1700000000000]
   \<and> \<not> distinct (map entry_id (comparisonMortgages
      (run [ClickCalculate (Fin 0) (Fin 1200) (Fin 1) (Fin 50),
            ClickAddToComparison 1700000000000,
            ClickAddToComparison 1700000000000] initial_page)))
   \<and> comparisonMortgages
      (run [ClickCalculate (Fin 0) (Fin 1200) (Fin 1) (Fin 50),
            ClickAddToComparison 1700000000000,
            ClickAddToComparison 1700000000000,
            ClickRemove 1700000000000] initial_page) = []
   \<and> map entry_id (comparisonMortgages
      (run [ClickCalculate (Fin 0) (Fin 1200) (Fin 1) (Fin 50),
            ClickAddToComparison 1700000000000,
            ClickRemove 1700000000000,
            ClickAddToComparison 1700000000000] initial_page))
     = [1700000000000]"
proof -
  note i = example_page_inputs
  have a1: "map entry_id (comparisonMortgages (addToComparison 1700000000000 example_page))
      = [1700000000000]"
    by (simp add: addToComparison_ids(1)[OF i] example_page_store)
  note i1 = addToComparison_ids(2)[OF i, of 1700000000000]
  have a2: "map entry_id (comparisonMortgages
      (addToComparison 1700000000000 (addToComparison 1700000000000 example_page)))
      = [1700000000000, 1700000000000]"
    by (simp add: addToComparison_ids(1)[OF i1] a1)
  have r2: "map entry_id (comparisonMortgages (removeFromComparison 1700000000000
      (addToComparison 1700000000000 (addToComparison 1700000000000 example_page)))) = []"
    by (simp add: removeFromComparison_ids a2)
  have r1: "map entry_id (comparisonMortgages (removeFromComparison 1700000000000
      (addToComparison 1700000000000 example_page))) = []"
    by (simp add: removeFromComparison_ids a1)
  have i2: "dataset_inputs (removeFromComparison 1700000000000
      (addToComparison 1700000000000 example_page)) = dataset_inputs example_page"
    by (simp add: removeFromComparison_inputs i1 i)
  have a3: "map entry_id (comparisonMortgages (addToComparison 1700000000000
      (removeFromComparison 1700000000000 (addToComparison 1700000000000 example_page))))
      = [1700000000000]"
    using addToComparison_ids(1)[OF i2[unfolded i], of 1700000000000] r1 by simp
  from a2 r2 a3 show ?thesis
    by (simp add: run_def example_page_def[symmetric])
qed

end
